theory Spec2Isabelle
  imports Main
begin

section \<open>The asynchronous task coordinator of \<^verbatim>\<open>src/async.ts\<close>\<close>

text \<open>
  The class \<^verbatim>\<open>Async\<close> keeps a registry \<^verbatim>\<open>cache\<close> (kind, then group, then the two
  structures \<^verbatim>\<open>labels\<close> and \<^verbatim>\<open>links\<close>) and registers, fires and clears tasks through
  \<^verbatim>\<open>setAsync\<close> and \<^verbatim>\<open>clearAsync\<close>. Both call back into user functions (payloads,
  \<^verbatim>\<open>onClear\<close> hooks), which may call the coordinator again. The embedding therefore is
  an interpreter over an explicit state: the registry, a store of Link objects (Links
  are shared by reference between the registry, the cancel context and the closures),
  the closures \<^verbatim>\<open>setAsync\<close> synthesises, and a trace of every call that leaves the
  coordinator and of every write to the registry, in the order the code performs them.

  Every function that can call user code takes a fuel argument and returns \<open>None\<close> when
  the fuel runs out; a JavaScript exception is the outcome \<open>Throw\<close>, with the state as
  it was when the exception was raised.
\<close>

subsection \<open>Values\<close>

text \<open>
  Function values. \<open>Resolve n\<close> and \<open>Reject n\<close> are the two functions the constructor
  of promise \<open>n\<close> hands to its executor; \<open>PromiseClear resolve reject\<close> is the handler
  that \<^verbatim>\<open>onPromiseClear(resolve, reject)\<close> returns; \<open>Wrapped k\<close> is the \<open>k\<close>-th function
  that \<^verbatim>\<open>setAsync\<close> synthesised (\<^verbatim>\<open>wrappedObj\<close>); \<open>User k\<close> is a function of the
  caller, whose body and result are looked up in the environment.
\<close>

datatype fn =
    Resolve nat
  | Reject nat
  | PromiseClear fn fn
  | Wrapped nat
  | User nat

text \<open>
  The values that serve as payloads and task ids: \<^verbatim>\<open>undefined\<close>, a number (a timer
  handle), a function, or an object reference (a worker, a request).
\<close>

datatype val = Undefined | Num nat | Fn fn | Obj nat

fun truthy :: "val \<Rightarrow> bool" where
  "truthy Undefined = False"
| "truthy (Num n) = (n \<noteq> 0)"
| "truthy (Fn f) = True"
| "truthy (Obj r) = True"

fun isFunction :: "val \<Rightarrow> bool" where
  "isFunction (Fn f) = True"
| "isFunction v = False"

text \<open>
  A label or a group is a string or absent. \<^verbatim>\<open>if (p.label)\<close> is false for the empty
  string too; \<^verbatim>\<open>labels[p.label]\<close> with an absent label reads the property
  \<^verbatim>\<open>"undefined"\<close>.
\<close>

definition truthyStr :: "string option \<Rightarrow> bool" where
  "truthyStr t = (case t of None \<Rightarrow> False | Some u \<Rightarrow> u \<noteq> [])"

definition propKey :: "string option \<Rightarrow> string" where
  "propKey t = (case t of None \<Rightarrow> ''undefined'' | Some u \<Rightarrow> u)"

datatype kind =
    Immediate | Interval | Timeout | AnimationFrame | IdleCallback
  | Worker | Request | Proxy | EventListener

text \<open>\<^verbatim>\<open>join?: boolean | 'replace'\<close>; \<open>NoJoin\<close> stands for both \<^verbatim>\<open>undefined\<close> and \<^verbatim>\<open>false\<close>.\<close>

datatype join = NoJoin | JoinTrue | JoinReplace

text \<open>
  The functions passed as \<^verbatim>\<open>wrapper\<close>: the host's schedulers (\<^verbatim>\<open>setImmediate\<close>,
  \<^verbatim>\<open>setTimeout\<close>, \<^verbatim>\<open>setInterval\<close>, \<^verbatim>\<open>requestAnimationFrame\<close>,
  \<^verbatim>\<open>requestIdleCallback\<close>), which return a handle; \<^verbatim>\<open>(fn) => fn\<close> of \<^verbatim>\<open>proxy\<close>; and
  \<^verbatim>\<open>(fn, req) => req.then(fn, fn)\<close> of \<^verbatim>\<open>request\<close>. The functions passed as
  \<^verbatim>\<open>clearFn\<close>: the host's cancel functions, \<^verbatim>\<open>workerDestructor\<close> and
  \<^verbatim>\<open>requestDestructor\<close>.
\<close>

datatype starter = HostTimer | Identity | ThenBoth

datatype destructor = HostClear | WorkerDestructor | RequestDestructor

text \<open>
  The parameter object \<^verbatim>\<open>p\<close> of \<^verbatim>\<open>setAsync\<close> and \<^verbatim>\<open>clearAsync\<close>. The source passes one
  untyped object through both (\<^verbatim>\<open>this.clearAsync({...p, replacedBy: link})\<close>), so one
  record holds the fields of both. \<^verbatim>\<open>p.id\<close> is the field \<open>ident\<close>; \<^verbatim>\<open>p.onClear\<close> is
  the list \<^verbatim>\<open>[].concat(p.onClear || [])\<close>; \<^verbatim>\<open>p.replacedBy\<close> is the address of a Link.
  \<^verbatim>\<open>p.args\<close> (timer delays and the like) only reaches the host and is left out.
\<close>

record params =
  name :: kind
  obj :: val
  clearFn :: "destructor option"
  wrapper :: "starter option"
  linkByWrapper :: bool
  interval :: bool
  needCall :: bool
  join :: join
  label :: "string option"
  group :: "string option"
  onClear :: "fn list"
  ident :: val
  replacedBy :: "nat option"

text \<open>The cancel context \<^verbatim>\<open>{...p, link, type: 'clearAsync'}\<close>; \<open>link\<close> is an address.\<close>

record asyncCtx =
  spread :: params
  link :: nat
  ctype :: string

datatype arg = NoArg | CtxArg asyncCtx

text \<open>
  \<^verbatim>\<open>AsyncLink\<close>. \<^verbatim>\<open>objName\<close> is only read by diagnostics and is left out; an entry of
  \<^verbatim>\<open>onComplete\<close> is a pair \<^verbatim>\<open>[resolve, reject]\<close>, the only shape the source pushes.
\<close>

record asyncLink =
  link_id :: val
  link_obj :: val
  link_label :: "string option"
  link_onComplete :: "(fn \<times> fn) list"
  link_onClear :: "fn list"

text \<open>
  \<^verbatim>\<open>LocalCacheObject\<close>. \<^verbatim>\<open>labels\<close> is an object without prototype, read and written
  by property only. \<^verbatim>\<open>links\<close> is a \<^verbatim>\<open>Map\<close>: its entries are kept in insertion order in
  a list whose deleted entries stay as empty slots, which is how the language defines a
  \<^verbatim>\<open>Map\<close> and what its live iterators walk. The value of an entry is the address of the
  Link object.
\<close>

record localCacheObject =
  labels :: "string \<Rightarrow> val"
  links :: "(val \<times> nat) option list"

record cacheObject =
  root :: localCacheObject
  groups :: "string \<Rightarrow> localCacheObject option"

text \<open>
  The variables a synthesised \<^verbatim>\<open>wrappedObj\<close> closes over: the LocalCache that
  \<^verbatim>\<open>links\<close> and \<^verbatim>\<open>labels\<close> belong to (kind and group), \<^verbatim>\<open>id\<close>, \<^verbatim>\<open>p.interval\<close>,
  \<^verbatim>\<open>p.label\<close> and \<^verbatim>\<open>finalObj\<close>.
\<close>

record closure =
  cl_name :: kind
  cl_group :: "string option"
  cl_id :: val
  cl_interval :: bool
  cl_label :: "string option"
  cl_finalObj :: val

datatype error = ReferenceError string | TypeError | UserError

datatype outcome = Return val | Throw error

text \<open>
  The trace: calls of functions (\<open>Called\<close>), of the host's schedulers (\<open>Scheduled\<close>,
  callback and handle returned), of a \<^verbatim>\<open>clearFn\<close> (\<open>Destructor\<close>), of a method of a host
  object (\<open>MethodCalled\<close>: receiver, method, argument), the registration
  \<^verbatim>\<open>finalObj.then(execTasks(), execTasks(1))\<close> (\<open>ThenExecTasks\<close>: receiver and Link), and
  the writes \<^verbatim>\<open>links.set\<close>, \<^verbatim>\<open>links.delete\<close> and \<^verbatim>\<open>labels[..] = ..\<close> on the LocalCache of
  a kind and group.
\<close>

datatype event =
    Called fn arg
  | Scheduled val val
  | Destructor destructor val asyncCtx
  | MethodCalled val string val
  | ThenExecTasks val nat
  | LinksSet kind "string option" val nat
  | LinksDelete kind "string option" val
  | LabelsSet kind "string option" string val

text \<open>
  What a user function does when called: a sequence of calls into the coordinator, of
  calls of other functions, and \<^verbatim>\<open>throw\<close>. The environment gives each user function
  its body and the value it returns, and each object the names of its methods.
\<close>

datatype cmd = CallSetAsync params | CallClearAsync params | Invoke fn | Raise

record env =
  body :: "nat \<Rightarrow> cmd list"
  ret :: "nat \<Rightarrow> val"
  methods :: "nat \<Rightarrow> string list"

record state =
  cache :: "kind \<Rightarrow> cacheObject option"
  heap :: "nat \<Rightarrow> asyncLink"
  nextAddr :: nat
  closures :: "nat \<Rightarrow> closure"
  nextClosure :: nat
  nextHandle :: nat
  trace :: "event list"

subsection \<open>The \<^verbatim>\<open>Map\<close> of links\<close>

fun map_get :: "val \<Rightarrow> (val \<times> 'a) option list \<Rightarrow> 'a option" where
  "map_get k [] = None"
| "map_get k (None # es) = map_get k es"
| "map_get k (Some (k', v) # es) = (if k' = k then Some v else map_get k es)"

fun map_delete :: "val \<Rightarrow> (val \<times> 'a) option list \<Rightarrow> (val \<times> 'a) option list" where
  "map_delete k [] = []"
| "map_delete k (None # es) = None # map_delete k es"
| "map_delete k (Some (k', v) # es) =
     (if k' = k then None # es else Some (k', v) # map_delete k es)"

fun map_set :: "val \<Rightarrow> 'a \<Rightarrow> (val \<times> 'a) option list \<Rightarrow> (val \<times> 'a) option list" where
  "map_set k v [] = [Some (k, v)]"
| "map_set k v (None # es) = None # map_set k v es"
| "map_set k v (Some (k', v') # es) =
     (if k' = k then Some (k, v) # es else Some (k', v') # map_set k v es)"

text \<open>
  \<^verbatim>\<open>values.next()\<close> of the iterator \<^verbatim>\<open>links.values()\<close> standing at index \<open>i\<close>: the value
  of the first non-empty slot from \<open>i\<close> on and the index after it, in the entries as
  they are now; \<open>None\<close> is \<^verbatim>\<open>done\<close>.
\<close>

fun map_next :: "nat \<Rightarrow> (val \<times> 'a) option list \<Rightarrow> ('a \<times> nat) option" where
  "map_next i [] = None"
| "map_next 0 (None # es) = (case map_next 0 es of None \<Rightarrow> None | Some (v, j) \<Rightarrow> Some (v, Suc j))"
| "map_next 0 (Some (k, v) # es) = Some (v, Suc 0)"
| "map_next (Suc i) (e # es) = (case map_next i es of None \<Rightarrow> None | Some (v, j) \<Rightarrow> Some (v, Suc j))"

subsection \<open>The registry\<close>

definition emptyLocal :: localCacheObject where
  "emptyLocal = \<lparr>labels = (\<lambda>k. Undefined), links = []\<rparr>"

definition emptyCache :: cacheObject where
  "emptyCache = \<lparr>root = emptyLocal, groups = (\<lambda>g. None)\<rparr>"

text \<open>\<^verbatim>\<open>initCache(name)\<close>: \<^verbatim>\<open>this.cache[name] = this.cache[name] || {...}\<close>.\<close>

definition initCache :: "kind \<Rightarrow> state \<Rightarrow> state" where
  "initCache k s =
     (case cache s k of
        Some c \<Rightarrow> s
      | None \<Rightarrow> s\<lparr>cache := (cache s)(k \<mapsto> emptyCache)\<rparr>)"

definition cacheObj :: "kind \<Rightarrow> state \<Rightarrow> cacheObject" where
  "cacheObj k s = (case cache s k of Some c \<Rightarrow> c | None \<Rightarrow> emptyCache)"

text \<open>
  \<^verbatim>\<open>baseCache.groups[p.group] = baseCache.groups[p.group] || {...}\<close> of \<^verbatim>\<open>setAsync\<close>.
\<close>

definition initGroup :: "kind \<Rightarrow> string \<Rightarrow> state \<Rightarrow> state" where
  "initGroup k g s =
     (case groups (cacheObj k s) g of
        Some c \<Rightarrow> s
      | None \<Rightarrow> s\<lparr>cache := (cache s)(k \<mapsto> (cacheObj k s)\<lparr>groups := (groups (cacheObj k s))(g \<mapsto> emptyLocal)\<rparr>)\<rparr>)"

text \<open>
  The LocalCache of a kind and a group (\<open>None\<close>: the root). The source holds references
  to the objects \<^verbatim>\<open>labels\<close> and \<^verbatim>\<open>links\<close>; a LocalCache, once created, is never replaced,
  so its kind and group identify it.
\<close>

definition localCache :: "kind \<Rightarrow> string option \<Rightarrow> state \<Rightarrow> localCacheObject" where
  "localCache k g s =
     (case g of
        None \<Rightarrow> root (cacheObj k s)
      | Some t \<Rightarrow> (case groups (cacheObj k s) t of Some c \<Rightarrow> c | None \<Rightarrow> emptyLocal))"

definition setLocal :: "kind \<Rightarrow> string option \<Rightarrow> localCacheObject \<Rightarrow> state \<Rightarrow> state" where
  "setLocal k g c s =
     s\<lparr>cache := (cache s)(k \<mapsto>
        (case g of
           None \<Rightarrow> (cacheObj k s)\<lparr>root := c\<rparr>
         | Some t \<Rightarrow> (cacheObj k s)\<lparr>groups := (groups (cacheObj k s))(t \<mapsto> c)\<rparr>))\<rparr>"

definition record_event :: "event \<Rightarrow> state \<Rightarrow> state" where
  "record_event e s = s\<lparr>trace := trace s @ [e]\<rparr>"

definition linksSet :: "kind \<Rightarrow> string option \<Rightarrow> val \<Rightarrow> nat \<Rightarrow> state \<Rightarrow> state" where
  "linksSet k g i a s =
     record_event (LinksSet k g i a)
       (setLocal k g ((localCache k g s)\<lparr>links := map_set i a (links (localCache k g s))\<rparr>) s)"

definition linksDelete :: "kind \<Rightarrow> string option \<Rightarrow> val \<Rightarrow> state \<Rightarrow> state" where
  "linksDelete k g i s =
     record_event (LinksDelete k g i)
       (setLocal k g ((localCache k g s)\<lparr>links := map_delete i (links (localCache k g s))\<rparr>) s)"

definition labelsSet :: "kind \<Rightarrow> string option \<Rightarrow> string \<Rightarrow> val \<Rightarrow> state \<Rightarrow> state" where
  "labelsSet k g l v s =
     record_event (LabelsSet k g l v)
       (setLocal k g ((localCache k g s)\<lparr>labels := (labels (localCache k g s))(l := v)\<rparr>) s)"

subsection \<open>Host objects and destructors\<close>

definition methodsOf :: "env \<Rightarrow> val \<Rightarrow> string list" where
  "methodsOf \<Gamma> v = (case v of Obj r \<Rightarrow> methods \<Gamma> r | _ \<Rightarrow> [])"

text \<open>
  \<^verbatim>\<open>isPromiseLike\<close>: an instance of \<^verbatim>\<open>Promise\<close>, or \<^verbatim>\<open>then\<close> and \<^verbatim>\<open>catch\<close> are functions.
\<close>

definition isPromiseLike :: "env \<Rightarrow> val \<Rightarrow> bool" where
  "isPromiseLike \<Gamma> v = (''then'' \<in> set (methodsOf \<Gamma> v) \<and> ''catch'' \<in> set (methodsOf \<Gamma> v))"

text \<open>
  \<^verbatim>\<open>workerDestructor\<close>: \<^verbatim>\<open>fn = worker.terminate || worker.destroy || worker.close\<close>, called
  when it is a function, else a \<^verbatim>\<open>ReferenceError\<close>.
\<close>

definition workerDestructor :: "env \<Rightarrow> val \<Rightarrow> state \<Rightarrow> outcome \<times> state" where
  "workerDestructor \<Gamma> w s =
     (if ''terminate'' \<in> set (methodsOf \<Gamma> w)
        then (Return Undefined, record_event (MethodCalled w ''terminate'' Undefined) s)
      else if ''destroy'' \<in> set (methodsOf \<Gamma> w)
        then (Return Undefined, record_event (MethodCalled w ''destroy'' Undefined) s)
      else if ''close'' \<in> set (methodsOf \<Gamma> w)
        then (Return Undefined, record_event (MethodCalled w ''close'' Undefined) s)
      else (Throw (ReferenceError ''Destructor function for the worker is not defined''), s))"

text \<open>
  \<^verbatim>\<open>requestDestructor\<close>:
  \<^verbatim>\<open>fn.call(request, ctx.join === 'replace' ? ctx.replacedBy && ctx.replacedBy.id : undefined)\<close>.
\<close>

definition requestDestructor :: "env \<Rightarrow> val \<Rightarrow> asyncCtx \<Rightarrow> state \<Rightarrow> outcome \<times> state" where
  "requestDestructor \<Gamma> r ctx s =
     (if ''abort'' \<in> set (methodsOf \<Gamma> r)
        then (Return Undefined,
              record_event (MethodCalled r ''abort''
                (if join (spread ctx) = JoinReplace
                 then (case replacedBy (spread ctx) of
                         None \<Rightarrow> Undefined
                       | Some b \<Rightarrow> link_id (heap s b))
                 else Undefined)) s)
      else (Throw (ReferenceError ''Abort function for the request is not defined''), s))"

text \<open>\<^verbatim>\<open>p.clearFn.call(null, link.id, ctx)\<close>.\<close>

definition callClearFn :: "env \<Rightarrow> destructor \<Rightarrow> val \<Rightarrow> asyncCtx \<Rightarrow> state \<Rightarrow> outcome \<times> state" where
  "callClearFn \<Gamma> d i ctx s =
     (let s1 = record_event (Destructor d i ctx) s in
      case d of
        HostClear \<Rightarrow> (Return Undefined, s1)
      | WorkerDestructor \<Rightarrow> workerDestructor \<Gamma> i s1
      | RequestDestructor \<Rightarrow> requestDestructor \<Gamma> i ctx s1)"

text \<open>
  \<^verbatim>\<open>p.wrapper.apply(null, [wrappedObj].concat(p.needCall ? id : [], p.args))\<close>. A host
  scheduler issues the next handle, a positive number it has not issued before. The
  promise that \<^verbatim>\<open>then\<close> returns is not tracked (\<^verbatim>\<open>request\<close>, the one caller with this
  wrapper, does not link by it).
\<close>

definition applyWrapper :: "env \<Rightarrow> starter \<Rightarrow> val \<Rightarrow> val option \<Rightarrow> state \<Rightarrow> outcome \<times> state" where
  "applyWrapper \<Gamma> w cb extra s =
     (case w of
        HostTimer \<Rightarrow>
          (Return (Num (Suc (nextHandle s))),
           record_event (Scheduled cb (Num (Suc (nextHandle s)))) (s\<lparr>nextHandle := Suc (nextHandle s)\<rparr>))
      | Identity \<Rightarrow> (Return cb, s)
      | ThenBoth \<Rightarrow>
          (case extra of
             None \<Rightarrow> (Throw TypeError, s)
           | Some req \<Rightarrow>
               if ''then'' \<in> set (methodsOf \<Gamma> req)
               then (Return Undefined, record_event (MethodCalled req ''then'' cb) s)
               else (Throw TypeError, s)))"

subsection \<open>Link objects and closures\<close>

definition newLink :: "asyncLink \<Rightarrow> state \<Rightarrow> state" where
  "newLink l s = s\<lparr>heap := (heap s)(nextAddr s := l), nextAddr := Suc (nextAddr s)\<rparr>"

definition newClosure :: "closure \<Rightarrow> state \<Rightarrow> state" where
  "newClosure c s = s\<lparr>closures := (closures s)(nextClosure s := c), nextClosure := Suc (nextClosure s)\<rparr>"

text \<open>The assignment \<^verbatim>\<open>id = link\<close> to the variable the closure has captured.\<close>

definition assignId :: "nat \<Rightarrow> val \<Rightarrow> state \<Rightarrow> state" where
  "assignId k i s = s\<lparr>closures := (closures s)(k := (closures s k)\<lparr>cl_id := i\<rparr>)\<rparr>"

definition MAX_PROMISE_DEPTH :: nat where
  "MAX_PROMISE_DEPTH = 25"

text \<open>
  The forwarding branch of the handler of \<^verbatim>\<open>onPromiseClear\<close>:
  \<^verbatim>\<open>replacedBy.onComplete.push([resolve, reject])\<close>, then every element of
  \<^verbatim>\<open>[].concat(obj.link.onClear, reject)\<close> is pushed onto \<^verbatim>\<open>replacedBy.onClear\<close>.
\<close>

definition promiseForward :: "fn \<Rightarrow> fn \<Rightarrow> asyncCtx \<Rightarrow> nat \<Rightarrow> state \<Rightarrow> state" where
  "promiseForward resolve reject ob r s =
     (let chain = link_onClear (heap s (link ob)) @ [reject];
          l1 = (heap s r)\<lparr>link_onComplete := link_onComplete (heap s r) @ [(resolve, reject)]\<rparr>;
          l2 = l1\<lparr>link_onClear := link_onClear l1 @ chain\<rparr>
      in s\<lparr>heap := (heap s)(r := l2)\<rparr>)"

text \<open>\<^verbatim>\<open>onPromiseClear(resolve, reject)\<close> returns its handler.\<close>

definition onPromiseClear :: "fn \<Rightarrow> fn \<Rightarrow> fn" where
  "onPromiseClear resolve reject = PromiseClear resolve reject"

text \<open>
  The cache a call of \<^verbatim>\<open>clearAsync\<close> works on: the group's when \<^verbatim>\<open>p.group\<close> is truthy
  (the call returns at once when there is no such group: the outer \<open>None\<close>), else the
  root. A group is a string here: the branch for a \<^verbatim>\<open>RegExp\<close> group, which goes through
  the external \<^verbatim>\<open>collection.js\<close>, is not part of the model.
\<close>

definition clearCache :: "params \<Rightarrow> state \<Rightarrow> string option option" where
  "clearCache p s =
     (if truthyStr (group p)
      then (case groups (cacheObj (name p) s) (propKey (group p)) of
              None \<Rightarrow> None
            | Some c \<Rightarrow> Some (group p))
      else Some None)"

subsection \<open>The interpreter\<close>

text \<open>
  The functions of the source that reach user code call one another, so they are
  defined together: \<open>exec\<close> runs one of them, named by a \<open>task\<close>, with the fuel it is
  given, and each function's body takes the interpreter for its nested calls (with one
  unit of fuel less) as the argument \<open>rec\<close>.
\<close>

datatype task =
    TCall fn arg
  | TRunBody "cmd list"
  | TSetAsync params
  | TClearAsync params
  | TClearHandlers nat asyncCtx nat
  | TClearEach params "string option" nat
  | TWrappedObj nat arg
  | TExecTasks nat bool arg nat

type_synonym result = "(outcome \<times> state) option"

text \<open>
  Calling a function value \<open>f\<close> with the argument \<open>x\<close>. The case \<open>PromiseClear\<close> is the
  handler of \<^verbatim>\<open>onPromiseClear\<close>: it destructures its argument (a \<^verbatim>\<open>TypeError\<close> without
  one), forwards when \<^verbatim>\<open>replacedBy && obj.join === 'replace' &&
  obj.link.onClear.length < MAX_PROMISE_DEPTH\<close>, and calls \<^verbatim>\<open>reject(obj)\<close> otherwise.
\<close>

definition call_body :: "env \<Rightarrow> (task \<Rightarrow> state \<Rightarrow> result) \<Rightarrow> fn \<Rightarrow> arg \<Rightarrow> state \<Rightarrow> result" where
  "call_body \<Gamma> rec f x s =
     (let s0 = record_event (Called f x) s in
      case f of
        Resolve m \<Rightarrow> Some (Return Undefined, s0)
      | Reject m \<Rightarrow> Some (Return Undefined, s0)
      | PromiseClear resolve reject \<Rightarrow>
          (case x of
             NoArg \<Rightarrow> Some (Throw TypeError, s0)
           | CtxArg ob \<Rightarrow>
               (case replacedBy (spread ob) of
                  None \<Rightarrow> rec (TCall reject x) s0
                | Some r \<Rightarrow>
                    if join (spread ob) = JoinReplace
                       \<and> length (link_onClear (heap s0 (link ob))) < MAX_PROMISE_DEPTH
                    then Some (Return Undefined, promiseForward resolve reject ob r s0)
                    else rec (TCall reject x) s0))
      | Wrapped k \<Rightarrow> rec (TWrappedObj k x) s0
      | User k \<Rightarrow>
          (case rec (TRunBody (body \<Gamma> k)) s0 of
             None \<Rightarrow> None
           | Some (Throw e, s1) \<Rightarrow> Some (Throw e, s1)
           | Some (Return v, s1) \<Rightarrow> Some (Return (ret \<Gamma> k), s1)))"

definition runBody_body :: "(task \<Rightarrow> state \<Rightarrow> result) \<Rightarrow> cmd list \<Rightarrow> state \<Rightarrow> result" where
  "runBody_body rec cs s =
     (case cs of
        [] \<Rightarrow> Some (Return Undefined, s)
      | c # cs' \<Rightarrow>
          (case (case c of
                   CallSetAsync p \<Rightarrow> rec (TSetAsync p) s
                 | CallClearAsync p \<Rightarrow> rec (TClearAsync p) s
                 | Invoke f \<Rightarrow> rec (TCall f NoArg) s
                 | Raise \<Rightarrow> Some (Throw UserError, s)) of
             None \<Rightarrow> None
           | Some (Throw e, s1) \<Rightarrow> Some (Throw e, s1)
           | Some (Return v, s1) \<Rightarrow> rec (TRunBody cs') s1))"

text \<open>
  Lines 1201 to 1251 of \<^verbatim>\<open>setAsync\<close>, which call no user code: the closure
  \<^verbatim>\<open>wrappedObj\<close> is created unless the task is an interval whose payload is no
  function; \<^verbatim>\<open>p.wrapper\<close>, when there is one, is applied to it; and \<^verbatim>\<open>id = link\<close> when
  \<^verbatim>\<open>p.linkByWrapper\<close>. The result is the id of the task.
\<close>

definition wrapAndStart :: "env \<Rightarrow> params \<Rightarrow> string option \<Rightarrow> val \<Rightarrow> state \<Rightarrow> outcome \<times> state" where
  "wrapAndStart \<Gamma> p g finalObj s =
     (let wrapped = (\<not> interval p \<or> isFunction finalObj);
          k = nextClosure s;
          s3 = (if wrapped
                then newClosure \<lparr>cl_name = name p, cl_group = g, cl_id = finalObj,
                       cl_interval = interval p, cl_label = label p,
                       cl_finalObj = finalObj\<rparr> s
                else s);
          wrappedObj = (if wrapped then Fn (Wrapped k) else finalObj)
      in
      case wrapper p of
        None \<Rightarrow> (Return finalObj, s3)
      | Some w \<Rightarrow>
          (case applyWrapper \<Gamma> w wrappedObj (if needCall p then Some finalObj else None) s3 of
             (Throw e, s4) \<Rightarrow> (Throw e, s4)
           | (Return lnk, s4) \<Rightarrow>
               if linkByWrapper p
               then (Return lnk, if wrapped then assignId k lnk s4 else s4)
               else (Return finalObj, s4)))"

text \<open>Lines 1266 to 1270: \<^verbatim>\<open>links.set(id, link)\<close>, and \<^verbatim>\<open>labels[p.label] = id\<close> if labelled.\<close>

definition installLink :: "params \<Rightarrow> string option \<Rightarrow> val \<Rightarrow> nat \<Rightarrow> state \<Rightarrow> state" where
  "installLink p g i a s =
     (if truthyStr (label p)
      then labelsSet (name p) g (propKey (label p)) i (linksSet (name p) g i a s)
      else linksSet (name p) g i a s)"

text \<open>The Link object of lines 1253 to 1260.\<close>

definition linkOf :: "params \<Rightarrow> val \<Rightarrow> asyncLink" where
  "linkOf p i = \<lparr>link_id = i, link_obj = obj p, link_label = label p,
     link_onComplete = [], link_onClear = onClear p\<rparr>"

text \<open>
  \<^verbatim>\<open>setAsync(p)\<close>, lines 1167 to 1273. Reading \<^verbatim>\<open>p.obj.name\<close> for the Link throws a
  \<^verbatim>\<open>TypeError\<close> when there is no \<^verbatim>\<open>p.obj\<close>.
\<close>

definition setAsync_body :: "env \<Rightarrow> (task \<Rightarrow> state \<Rightarrow> result) \<Rightarrow> params \<Rightarrow> state \<Rightarrow> result" where
  "setAsync_body \<Gamma> rec p s =
     (let s1 = (if truthyStr (group p)
                then initGroup (name p) (propKey (group p)) (initCache (name p) s)
                else initCache (name p) s);
          g = (if truthyStr (group p) then group p else None);
          labelCache = labels (localCache (name p) g s1) (propKey (label p))
      in
      if truthy labelCache \<and> join p = JoinTrue then Some (Return labelCache, s1)
      else
        case (if needCall p \<and> isFunction (obj p)
              then (case obj p of Fn f \<Rightarrow> rec (TCall f NoArg) s1 | v \<Rightarrow> Some (Return v, s1))
              else Some (Return (obj p), s1)) of
          None \<Rightarrow> None
        | Some (Throw e, s2) \<Rightarrow> Some (Throw e, s2)
        | Some (Return finalObj, s2) \<Rightarrow>
            (case wrapAndStart \<Gamma> p g finalObj s2 of
               (Throw e, s5) \<Rightarrow> Some (Throw e, s5)
             | (Return i, s5) \<Rightarrow>
                 if obj p = Undefined then Some (Throw TypeError, s5)
                 else
                   (let a = nextAddr s5;
                        s6 = newLink (linkOf p i) s5
                    in
                    case (if truthy labelCache
                          then rec (TClearAsync (p\<lparr>replacedBy := Some a\<rparr>)) s6
                          else Some (Return Undefined, s6)) of
                      None \<Rightarrow> None
                    | Some (Throw e, s7) \<Rightarrow> Some (Throw e, s7)
                    | Some (Return v, s7) \<Rightarrow> Some (Return i, installLink p g i a s7))))"

text \<open>\<^verbatim>\<open>clearAsync(p)\<close>, lines 1279 to 1355.\<close>

definition clearAsync_body :: "env \<Rightarrow> (task \<Rightarrow> state \<Rightarrow> result) \<Rightarrow> params \<Rightarrow> state \<Rightarrow> result" where
  "clearAsync_body \<Gamma> rec p s =
     (let s0 = initCache (name p) s in
      case clearCache p s0 of
        None \<Rightarrow> Some (Return Undefined, s0)
      | Some g \<Rightarrow>
          (let tmp = labels (localCache (name p) g s0) (propKey (label p)) in
           if truthyStr (label p) \<and> ident p \<noteq> Undefined \<and> ident p \<noteq> tmp
           then Some (Return Undefined, s0)
           else
             (let q = (if truthyStr (label p) then p\<lparr>ident := tmp\<rparr> else p) in
              if ident q \<noteq> Undefined
              then
                (case map_get (ident q) (links (localCache (name p) g s0)) of
                   None \<Rightarrow> Some (Return Undefined, s0)
                 | Some a \<Rightarrow>
                     (let s1 = linksDelete (name p) g (link_id (heap s0 a)) s0;
                          s2 = labelsSet (name p) g (propKey (link_label (heap s1 a))) Undefined s1;
                          ctx = \<lparr>spread = q, link = a, ctype = ''clearAsync''\<rparr>
                      in
                      case rec (TClearHandlers a ctx 0) s2 of
                        None \<Rightarrow> None
                      | Some (Throw e, s3) \<Rightarrow> Some (Throw e, s3)
                      | Some (Return v, s3) \<Rightarrow>
                          (case clearFn q of
                             None \<Rightarrow> Some (Return Undefined, s3)
                           | Some d \<Rightarrow>
                               (case callClearFn \<Gamma> d (link_id (heap s3 a)) ctx s3 of
                                  (Throw e, s4) \<Rightarrow> Some (Throw e, s4)
                                | (Return w, s4) \<Rightarrow> Some (Return Undefined, s4)))))
              else
                (case rec (TClearEach q g 0) s0 of
                   None \<Rightarrow> None
                 | Some (Throw e, s1) \<Rightarrow> Some (Throw e, s1)
                 | Some (Return v, s1) \<Rightarrow> Some (Return Undefined, s1)))))"

text \<open>
  The loop of lines 1336 to 1338 from index \<open>i\<close> on; \<^verbatim>\<open>clearHandlers\<close> is the array
  \<^verbatim>\<open>link.onClear\<close> itself, so its length is read again at every turn.
\<close>

definition clearHandlers_body ::
  "(task \<Rightarrow> state \<Rightarrow> result) \<Rightarrow> nat \<Rightarrow> asyncCtx \<Rightarrow> nat \<Rightarrow> state \<Rightarrow> result" where
  "clearHandlers_body rec a ctx i s =
     (if i < length (link_onClear (heap s a))
      then (case rec (TCall (link_onClear (heap s a) ! i) (CtxArg ctx)) s of
              None \<Rightarrow> None
            | Some (Throw e, s1) \<Rightarrow> Some (Throw e, s1)
            | Some (Return v, s1) \<Rightarrow> rec (TClearHandlers a ctx (Suc i)) s1)
      else Some (Return Undefined, s))"

text \<open>
  The loop of lines 1346 to 1351 with the iterator \<^verbatim>\<open>links.values()\<close> at index \<open>i\<close>:
  the iterator reads the entries of the \<^verbatim>\<open>Map\<close> as they are at every \<^verbatim>\<open>next()\<close>.
\<close>

definition clearEach_body ::
  "(task \<Rightarrow> state \<Rightarrow> result) \<Rightarrow> params \<Rightarrow> string option \<Rightarrow> nat \<Rightarrow> state \<Rightarrow> result" where
  "clearEach_body rec p g i s =
     (case map_next i (links (localCache (name p) g s)) of
        None \<Rightarrow> Some (Return Undefined, s)
      | Some (a, j) \<Rightarrow>
          (case rec (TClearAsync (p\<lparr>ident := link_id (heap s a)\<rparr>)) s of
             None \<Rightarrow> None
           | Some (Throw e, s1) \<Rightarrow> Some (Throw e, s1)
           | Some (Return v, s1) \<Rightarrow> rec (TClearEach p g j) s1))"

text \<open>
  The function \<^verbatim>\<open>wrappedObj\<close> that \<^verbatim>\<open>setAsync\<close> synthesises (lines 1202 to 1241), with the
  variables of closure \<open>k\<close>.
\<close>

definition wrappedObj_body ::
  "env \<Rightarrow> (task \<Rightarrow> state \<Rightarrow> result) \<Rightarrow> nat \<Rightarrow> arg \<Rightarrow> state \<Rightarrow> result" where
  "wrappedObj_body \<Gamma> rec k x s =
     (let cl = closures s k in
      case map_get (cl_id cl) (links (localCache (cl_name cl) (cl_group cl) s)) of
        None \<Rightarrow> Some (Return Undefined, s)
      | Some a \<Rightarrow>
          (let s1 = (if \<not> cl_interval cl
                     then labelsSet (cl_name cl) (cl_group cl) (propKey (cl_label cl)) Undefined
                            (linksDelete (cl_name cl) (cl_group cl) (cl_id cl) s)
                     else s)
           in
           case (case cl_finalObj cl of
                   Fn f \<Rightarrow> rec (TCall f x) s1
                 | v \<Rightarrow> Some (Return v, s1)) of
             None \<Rightarrow> None
           | Some (Throw e, s2) \<Rightarrow> Some (Throw e, s2)
           | Some (Return res, s2) \<Rightarrow>
               if isPromiseLike \<Gamma> (cl_finalObj cl)
               then Some (Return res, record_event (ThenExecTasks (cl_finalObj cl) a) s2)
               else
                 (case rec (TExecTasks a False x 0) s2 of
                    None \<Rightarrow> None
                  | Some (Throw e, s3) \<Rightarrow> Some (Throw e, s3)
                  | Some (Return v, s3) \<Rightarrow> Some (Return res, s3))))"

text \<open>
  \<^verbatim>\<open>execTasks(i)(...args)\<close> from index \<open>j\<close> on: \<^verbatim>\<open>(fn[i] || fn).apply(fnCtx, args)\<close> for
  every entry of \<^verbatim>\<open>link.onComplete\<close>; \<open>i\<close> is \<open>False\<close> for \<^verbatim>\<open>0\<close> and \<open>True\<close> for \<^verbatim>\<open>1\<close>.
\<close>

definition execTasks_body ::
  "(task \<Rightarrow> state \<Rightarrow> result) \<Rightarrow> nat \<Rightarrow> bool \<Rightarrow> arg \<Rightarrow> nat \<Rightarrow> state \<Rightarrow> result" where
  "execTasks_body rec a i x j s =
     (if j < length (link_onComplete (heap s a))
      then (case rec (TCall (if i then snd (link_onComplete (heap s a) ! j)
                                  else fst (link_onComplete (heap s a) ! j)) x) s of
              None \<Rightarrow> None
            | Some (Throw e, s1) \<Rightarrow> Some (Throw e, s1)
            | Some (Return v, s1) \<Rightarrow> rec (TExecTasks a i x (Suc j)) s1)
      else Some (Return Undefined, s))"

definition step :: "env \<Rightarrow> (task \<Rightarrow> state \<Rightarrow> result) \<Rightarrow> task \<Rightarrow> state \<Rightarrow> result" where
  "step \<Gamma> rec t s =
     (case t of
        TCall f x \<Rightarrow> call_body \<Gamma> rec f x s
      | TRunBody cs \<Rightarrow> runBody_body rec cs s
      | TSetAsync p \<Rightarrow> setAsync_body \<Gamma> rec p s
      | TClearAsync p \<Rightarrow> clearAsync_body \<Gamma> rec p s
      | TClearHandlers a ctx i \<Rightarrow> clearHandlers_body rec a ctx i s
      | TClearEach p g i \<Rightarrow> clearEach_body rec p g i s
      | TWrappedObj k x \<Rightarrow> wrappedObj_body \<Gamma> rec k x s
      | TExecTasks a i x j \<Rightarrow> execTasks_body rec a i x j s)"

primrec exec :: "env \<Rightarrow> nat \<Rightarrow> task \<Rightarrow> state \<Rightarrow> result" where
  "exec \<Gamma> 0 t s = None"
| "exec \<Gamma> (Suc n) t s = step \<Gamma> (exec \<Gamma> n) t s"

definition call :: "env \<Rightarrow> nat \<Rightarrow> fn \<Rightarrow> arg \<Rightarrow> state \<Rightarrow> result" where
  "call \<Gamma> n f x s = exec \<Gamma> n (TCall f x) s"

definition setAsync :: "env \<Rightarrow> nat \<Rightarrow> params \<Rightarrow> state \<Rightarrow> result" where
  "setAsync \<Gamma> n p s = exec \<Gamma> n (TSetAsync p) s"

definition clearAsync :: "env \<Rightarrow> nat \<Rightarrow> params \<Rightarrow> state \<Rightarrow> result" where
  "clearAsync \<Gamma> n p s = exec \<Gamma> n (TClearAsync p) s"

subsection \<open>The public wrappers\<close>

text \<open>
  The options object of a public method is spread into the parameter object
  (\<^verbatim>\<open>{...params, name: 'timeout', obj: fn, ...}\<close>), so it is a \<open>params\<close> record whose
  fields the wrapper overwrites; \<open>noParams\<close> is the empty object.
\<close>

definition noParams :: params where
  "noParams = \<lparr>name = Timeout, obj = Undefined, clearFn = None, wrapper = None,
     linkByWrapper = False, interval = False, needCall = False, join = NoJoin,
     label = None, group = None, onClear = [], ident = Undefined, replacedBy = None\<rparr>"

definition setImmediate :: "env \<Rightarrow> nat \<Rightarrow> val \<Rightarrow> params \<Rightarrow> state \<Rightarrow> result" where
  "setImmediate \<Gamma> n f ps s =
     setAsync \<Gamma> n (ps\<lparr>name := Immediate, obj := f, clearFn := Some HostClear,
       wrapper := Some HostTimer, linkByWrapper := True\<rparr>) s"

definition setInterval :: "env \<Rightarrow> nat \<Rightarrow> val \<Rightarrow> params \<Rightarrow> state \<Rightarrow> result" where
  "setInterval \<Gamma> n f ps s =
     setAsync \<Gamma> n (ps\<lparr>name := Interval, obj := f, clearFn := Some HostClear,
       wrapper := Some HostTimer, linkByWrapper := True, interval := True\<rparr>) s"

definition setTimeout :: "env \<Rightarrow> nat \<Rightarrow> val \<Rightarrow> params \<Rightarrow> state \<Rightarrow> result" where
  "setTimeout \<Gamma> n f ps s =
     setAsync \<Gamma> n (ps\<lparr>name := Timeout, obj := f, clearFn := Some HostClear,
       wrapper := Some HostTimer, linkByWrapper := True\<rparr>) s"

text \<open>\<^verbatim>\<open>clearTimeout(p)\<close> with a parameter object: \<^verbatim>\<open>id: p.id || this.getIfNotObject(p)\<close>.\<close>

definition clearTimeout :: "env \<Rightarrow> nat \<Rightarrow> params \<Rightarrow> state \<Rightarrow> result" where
  "clearTimeout \<Gamma> n ps s =
     clearAsync \<Gamma> n (ps\<lparr>name := Timeout, clearFn := Some HostClear,
       ident := (if truthy (ident ps) then ident ps else Undefined)\<rparr>) s"

text \<open>\<^verbatim>\<open>worker(worker, params)\<close>: \<^verbatim>\<open>obj: worker || this.getIfNotObject(params)\<close>.\<close>

definition worker :: "env \<Rightarrow> nat \<Rightarrow> val \<Rightarrow> params \<Rightarrow> state \<Rightarrow> result" where
  "worker \<Gamma> n w ps s =
     setAsync \<Gamma> n (ps\<lparr>name := Worker, obj := (if truthy w then w else Undefined),
       clearFn := Some WorkerDestructor, interval := True\<rparr>) s"

definition terminateWorker :: "env \<Rightarrow> nat \<Rightarrow> params \<Rightarrow> state \<Rightarrow> result" where
  "terminateWorker \<Gamma> n ps s =
     clearAsync \<Gamma> n (ps\<lparr>name := Worker, clearFn := Some WorkerDestructor,
       ident := (if truthy (ident ps) then ident ps else Undefined)\<rparr>) s"

definition request :: "env \<Rightarrow> nat \<Rightarrow> val \<Rightarrow> params \<Rightarrow> state \<Rightarrow> result" where
  "request \<Gamma> n r ps s =
     setAsync \<Gamma> n (ps\<lparr>name := Request, obj := r, clearFn := Some RequestDestructor,
       wrapper := Some ThenBoth, needCall := True\<rparr>) s"

definition proxy :: "env \<Rightarrow> nat \<Rightarrow> val \<Rightarrow> params \<Rightarrow> state \<Rightarrow> result" where
  "proxy \<Gamma> n cb ps s =
     setAsync \<Gamma> n (ps\<lparr>name := Proxy, obj := cb, wrapper := Some Identity,
       linkByWrapper := True\<rparr>) s"

text \<open>
  \<^verbatim>\<open>sleep(timer, params)\<close> for the promise \<open>m\<close> it constructs: the executor registers
  \<^verbatim>\<open>resolve\<close> as the payload of a timeout and the handler of
  \<^verbatim>\<open>onPromiseClear(resolve, reject)\<close> as its \<^verbatim>\<open>onClear\<close>.
\<close>

definition sleep :: "env \<Rightarrow> nat \<Rightarrow> nat \<Rightarrow> params \<Rightarrow> state \<Rightarrow> result" where
  "sleep \<Gamma> n m ps s =
     setTimeout \<Gamma> n (Fn (Resolve m))
       (ps\<lparr>onClear := [onPromiseClear (Resolve m) (Reject m)]\<rparr>) s"

text \<open>The state of a new \<^verbatim>\<open>Async\<close> (\<^verbatim>\<open>this.cache = Object.create(null)\<close>) and host.\<close>

definition noLink :: asyncLink where
  "noLink = \<lparr>link_id = Undefined, link_obj = Undefined, link_label = None,
     link_onComplete = [], link_onClear = []\<rparr>"

definition noClosure :: closure where
  "noClosure = \<lparr>cl_name = Timeout, cl_group = None, cl_id = Undefined, cl_interval = False,
     cl_label = None, cl_finalObj = Undefined\<rparr>"

definition init :: state where
  "init = \<lparr>cache = (\<lambda>k. None), heap = (\<lambda>a. noLink), nextAddr = 0,
     closures = (\<lambda>k. noClosure), nextClosure = 0, nextHandle = 0, trace = []\<rparr>"

section \<open>Notions used to state the properties\<close>

text \<open>
  Several events appended to the trace at once; the cancel context that \<^verbatim>\<open>clearAsync\<close>
  builds for the Link at address \<open>a\<close> once \<^verbatim>\<open>p.id\<close> is resolved to \<open>i\<close>; the state after
  \<^verbatim>\<open>links.delete(link.id)\<close> and \<^verbatim>\<open>labels[link.label] = undefined\<close>; the events of
  calling each hook of a list with a context.
\<close>

definition record_events :: "event list \<Rightarrow> state \<Rightarrow> state" where
  "record_events es s = s\<lparr>trace := trace s @ es\<rparr>"

definition cancelCtx :: "params \<Rightarrow> val \<Rightarrow> nat \<Rightarrow> asyncCtx" where
  "cancelCtx p i a = \<lparr>spread = p\<lparr>ident := i\<rparr>, link = a, ctype = ''clearAsync''\<rparr>"

definition unlinked :: "kind \<Rightarrow> string option \<Rightarrow> val \<Rightarrow> string option \<Rightarrow> state \<Rightarrow> state" where
  "unlinked k g i l s = labelsSet k g (propKey l) Undefined (linksDelete k g i s)"

definition hooksCalled :: "fn list \<Rightarrow> asyncCtx \<Rightarrow> event list" where
  "hooksCalled hs ctx = map (\<lambda>f. Called f (CtxArg ctx)) hs"

text \<open>
  The state in which \<^verbatim>\<open>setAsync\<close> looks up the label: the CacheObject of the kind and the
  LocalCache of the group exist. The state after a host scheduler has been started
  with the closure for the payload \<open>f\<close> and \<^verbatim>\<open>id = link\<close> has been assigned.
\<close>

definition prepared :: "params \<Rightarrow> state \<Rightarrow> state" where
  "prepared p s =
     (if truthyStr (group p)
      then initGroup (name p) (propKey (group p)) (initCache (name p) s)
      else initCache (name p) s)"

definition started :: "params \<Rightarrow> string option \<Rightarrow> val \<Rightarrow> state \<Rightarrow> state" where
  "started p g f s =
     assignId (nextClosure s) (Num (Suc (nextHandle s)))
       (record_event (Scheduled (Fn (Wrapped (nextClosure s))) (Num (Suc (nextHandle s))))
          ((newClosure \<lparr>cl_name = name p, cl_group = g, cl_id = f, cl_interval = interval p,
                         cl_label = label p, cl_finalObj = f\<rparr> s)
             \<lparr>nextHandle := Suc (nextHandle s)\<rparr>))"

text \<open>
  An event is quiet when it is neither the call of a function nor the call of a
  destructor. \<open>precedes a b tr\<close>: the event \<open>a\<close> occurs in \<open>tr\<close> before the first \<open>b\<close>.
\<close>

definition quiet :: "event \<Rightarrow> bool" where
  "quiet e = (case e of Called f x \<Rightarrow> False | Destructor d i c \<Rightarrow> False | _ \<Rightarrow> True)"


text \<open>
  A function is inert when calling it does nothing but be called: the \<^verbatim>\<open>resolve\<close> or
  \<^verbatim>\<open>reject\<close> of a promise, or a user function with an empty body.
\<close>

definition inert :: "env \<Rightarrow> fn \<Rightarrow> bool" where
  "inert \<Gamma> f =
     (case f of
        Resolve m \<Rightarrow> True
      | Reject m \<Rightarrow> True
      | User k \<Rightarrow> body \<Gamma> k = []
      | _ \<Rightarrow> False)"

text \<open>
  Notions for the walk of a bulk clear. The \<^verbatim>\<open>links\<close> of a LocalCache are \<open>keyed\<close> when every
  entry maps the id of its Link, an allocated object, to that Link, as
  \<^verbatim>\<open>links.set(id, link)\<close> makes it. \<open>extends m m'\<close>: the entries \<open>m'\<close> come from \<open>m\<close> by
  writes of a \<^verbatim>\<open>Map\<close>, which only append and never fill an emptied slot again.
  \<open>hasGroup\<close>: the LocalCache of a group exists. \<open>grows\<close>: what every call keeps
  between the state it starts in and the state it ends in; \<open>keeps\<close>: it does so from a
  keyed state on and ends in a keyed state. \<open>cleared j m\<close>: the first \<open>j\<close> slots of \<open>m\<close>
  are empty.
\<close>

definition keyed :: "kind \<Rightarrow> string option \<Rightarrow> state \<Rightarrow> bool" where
  "keyed k g s =
     list_all (\<lambda>e. case e of None \<Rightarrow> True
                  | Some (i, a) \<Rightarrow> a < nextAddr s \<and> link_id (heap s a) = i)
       (links (localCache k g s))"

definition extends :: "(val \<times> nat) option list \<Rightarrow> (val \<times> nat) option list \<Rightarrow> bool" where
  "extends m m' = (length m \<le> length m' \<and> (\<forall>l < length m. m ! l = None \<longrightarrow> m' ! l = None))"

definition hasGroup :: "kind \<Rightarrow> string \<Rightarrow> state \<Rightarrow> bool" where
  "hasGroup k t s = (groups (cacheObj k s) t \<noteq> None)"

definition grows :: "kind \<Rightarrow> string option \<Rightarrow> state \<Rightarrow> state \<Rightarrow> bool" where
  "grows k g s s' =
     (nextAddr s \<le> nextAddr s'
      \<and> (\<forall>a < nextAddr s. link_id (heap s' a) = link_id (heap s a))
      \<and> extends (links (localCache k g s)) (links (localCache k g s'))
      \<and> (\<forall>t. hasGroup k t s \<longrightarrow> hasGroup k t s'))"

definition keeps :: "kind \<Rightarrow> string option \<Rightarrow> state \<Rightarrow> state \<Rightarrow> bool" where
  "keeps k g s s' = (keyed k g s \<longrightarrow> keyed k g s' \<and> grows k g s s')"

definition cleared :: "nat \<Rightarrow> (val \<times> nat) option list \<Rightarrow> bool" where
  "cleared j m = (\<forall>l < j. l < length m \<longrightarrow> m ! l = None)"

section \<open>Example states\<close>

text \<open>
  An environment whose user functions do nothing and whose objects have no methods, and
  the state after \<^verbatim>\<open>sleep(_, {label: 'a', join: true})\<close> for promise 1 on a new
  \<^verbatim>\<open>Async\<close>: one timeout with handle 1 holds the label.
\<close>

definition env0 :: env where
  "env0 = \<lparr>body = (\<lambda>k. []), ret = (\<lambda>k. Undefined), methods = (\<lambda>r. [])\<rparr>"

definition joinA :: params where
  "joinA = noParams\<lparr>label := Some ''a'', join := JoinTrue\<rparr>"

text \<open>
  The parameter object that \<^verbatim>\<open>sleep\<close> passes to \<^verbatim>\<open>setAsync\<close> for promise \<open>m\<close>, and the
  state after a timer-like task \<open>q\<close> without group has been registered on a new
  \<^verbatim>\<open>Async\<close>: handle 1, Link 0, closure 0.
\<close>

definition sleepParams :: "nat \<Rightarrow> params \<Rightarrow> params" where
  "sleepParams m ps =
     ps\<lparr>onClear := [onPromiseClear (Resolve m) (Reject m)]\<rparr>
       \<lparr>name := Timeout, obj := Fn (Resolve m), clearFn := Some HostClear,
        wrapper := Some HostTimer, linkByWrapper := True\<rparr>"

definition registered :: "params \<Rightarrow> state" where
  "registered q =
     installLink q None (Num 1) 0
       (newLink (linkOf q (Num 1)) (started q None (obj q) (initCache (name q) init)))"

definition timeoutA :: params where
  "timeoutA = sleepParams 2 joinA"

definition slept :: state where
  "slept = registered (sleepParams 1 joinA)"







definition fired :: state where
  "fired =
     record_event (Called (Resolve 1) NoArg)
       (unlinked Timeout None (Num 1) (Some ''a'')
          (record_event (Called (Wrapped 0) NoArg) slept))"



text \<open>
  An environment whose user function 0 throws at once, and a timeout with handle 1
  whose \<^verbatim>\<open>onClear\<close> hooks are that function and then the \<^verbatim>\<open>reject\<close> of promise 1.
\<close>

definition envThrow :: env where
  "envThrow = \<lparr>body = (\<lambda>k. if k = 0 then [Raise] else []), ret = (\<lambda>k. Undefined),
     methods = (\<lambda>r. [])\<rparr>"

definition hooked :: state where
  "hooked =
     linksSet Timeout None (Num 1) 0
       (newLink \<lparr>link_id = Num 1, link_obj = Fn (User 1), link_label = None,
                 link_onComplete = [], link_onClear = [User 0, Reject 1]\<rparr>
          (initCache Timeout init))"


definition cancel1 :: params where
  "cancel1 = noParams\<lparr>name := Timeout, clearFn := Some HostClear, ident := Num 1\<rparr>"

text \<open>
  The cancel context of the timeout of \<open>slept\<close> when a \<^verbatim>\<open>sleep\<close> with
  \<^verbatim>\<open>join: 'replace'\<close> under the same label replaces it by the Link at address 1; the
  state after the timeout of \<open>booked\<close> has fired under \<open>envAgain\<close>; the parameter object
  of \<^verbatim>\<open>worker(w, {onClear: reject})\<close> for the worker 5 and the \<^verbatim>\<open>reject\<close> of promise
  \<open>m\<close>.
\<close>

definition cancelReplace :: asyncCtx where
  "cancelReplace =
     cancelCtx ((sleepParams 2 (noParams\<lparr>label := Some ''a'', join := JoinReplace\<rparr>))
                  \<lparr>replacedBy := Some 1\<rparr>) (Num 1) 0"


definition hire :: "nat \<Rightarrow> params" where
  "hire m = (noParams\<lparr>onClear := [Reject m]\<rparr>)\<lparr>name := Worker, obj := Obj 5,
     clearFn := Some WorkerDestructor, interval := True\<rparr>"










section \<open>Basic facts\<close>

subsection \<open>One step of each function\<close>

lemma call_Suc: "call \<Gamma> (Suc n) f x s = call_body \<Gamma> (exec \<Gamma> n) f x s"
  by (simp add: call_def step_def)

lemma setAsync_Suc: "setAsync \<Gamma> (Suc n) p s = setAsync_body \<Gamma> (exec \<Gamma> n) p s"
  by (simp add: setAsync_def step_def)

lemma clearAsync_Suc: "clearAsync \<Gamma> (Suc n) p s = clearAsync_body \<Gamma> (exec \<Gamma> n) p s"
  by (simp add: clearAsync_def step_def)

lemma exec_TCall: "exec \<Gamma> (Suc n) (TCall f x) s = call_body \<Gamma> (exec \<Gamma> n) f x s"
  by (simp add: step_def)

lemma exec_TRunBody: "exec \<Gamma> (Suc n) (TRunBody cs) s = runBody_body (exec \<Gamma> n) cs s"
  by (simp add: step_def)

lemma exec_TSetAsync: "exec \<Gamma> (Suc n) (TSetAsync p) s = setAsync_body \<Gamma> (exec \<Gamma> n) p s"
  by (simp add: step_def)

lemma exec_TClearAsync: "exec \<Gamma> (Suc n) (TClearAsync p) s = clearAsync_body \<Gamma> (exec \<Gamma> n) p s"
  by (simp add: step_def)

lemma exec_TClearHandlers:
  "exec \<Gamma> (Suc n) (TClearHandlers a ctx i) s = clearHandlers_body (exec \<Gamma> n) a ctx i s"
  by (simp add: step_def)

lemma exec_TClearEach:
  "exec \<Gamma> (Suc n) (TClearEach p g i) s = clearEach_body (exec \<Gamma> n) p g i s"
  by (simp add: step_def)

lemma exec_TWrappedObj:
  "exec \<Gamma> (Suc n) (TWrappedObj k x) s = wrappedObj_body \<Gamma> (exec \<Gamma> n) k x s"
  by (simp add: step_def)

lemma exec_TExecTasks:
  "exec \<Gamma> (Suc n) (TExecTasks a i x j) s = execTasks_body (exec \<Gamma> n) a i x j s"
  by (simp add: step_def)

lemmas exec_task = exec_TCall exec_TRunBody exec_TSetAsync exec_TClearAsync
  exec_TClearHandlers exec_TClearEach exec_TWrappedObj exec_TExecTasks

declare exec.simps(2) [simp del]

subsection \<open>Reading the state after a write\<close>

lemma truthy_defined: "truthy v \<Longrightarrow> v \<noteq> Undefined"
  by (cases v) auto

lemma labels_emptyLocal [simp]: "labels emptyLocal l = Undefined"
  by (simp add: emptyLocal_def)

lemma links_emptyLocal [simp]: "links emptyLocal = []"
  by (simp add: emptyLocal_def)

lemma localCache_initCache [simp]: "localCache k g (initCache k' s) = localCache k g s"
  by (auto simp: localCache_def initCache_def cacheObj_def split: option.splits)

lemma localCache_initGroup [simp]: "localCache k g (initGroup k' t s) = localCache k g s"
  by (auto simp: localCache_def initGroup_def cacheObj_def emptyCache_def split: option.splits)

lemma localCache_setLocal:
  "localCache k g (setLocal k' g' c s) = (if k = k' \<and> g = g' then c else localCache k g s)"
  by (auto simp: localCache_def setLocal_def cacheObj_def split: option.splits)

lemma localCache_record_event [simp]: "localCache k g (record_event e s) = localCache k g s"
  by (simp add: localCache_def record_event_def cacheObj_def split: option.splits)

lemma localCache_linksSet:
  "localCache k g (linksSet k' g' i a s) =
     (if k = k' \<and> g = g'
      then (localCache k g s)\<lparr>links := map_set i a (links (localCache k g s))\<rparr>
      else localCache k g s)"
  by (simp add: linksSet_def localCache_setLocal)

lemma localCache_linksDelete:
  "localCache k g (linksDelete k' g' i s) =
     (if k = k' \<and> g = g'
      then (localCache k g s)\<lparr>links := map_delete i (links (localCache k g s))\<rparr>
      else localCache k g s)"
  by (simp add: linksDelete_def localCache_setLocal)

lemma localCache_labelsSet:
  "localCache k g (labelsSet k' g' l v s) =
     (if k = k' \<and> g = g'
      then (localCache k g s)\<lparr>labels := (labels (localCache k g s))(l := v)\<rparr>
      else localCache k g s)"
  by (simp add: labelsSet_def localCache_setLocal)

lemma localCache_newLink [simp]: "localCache k g (newLink l s) = localCache k g s"
  by (simp add: localCache_def newLink_def cacheObj_def split: option.splits)

lemma localCache_newClosure [simp]: "localCache k g (newClosure c s) = localCache k g s"
  by (simp add: localCache_def newClosure_def cacheObj_def split: option.splits)

lemma localCache_assignId [simp]: "localCache k g (assignId j i s) = localCache k g s"
  by (simp add: localCache_def assignId_def cacheObj_def split: option.splits)

lemma localCache_promiseForward [simp]:
  "localCache k g (promiseForward res rej ob r s) = localCache k g s"
  by (simp add: localCache_def promiseForward_def cacheObj_def Let_def split: option.splits)

lemma localCache_nextHandle [simp]:
  "localCache k g (s\<lparr>nextHandle := h\<rparr>) = localCache k g s"
  by (simp add: localCache_def cacheObj_def split: option.splits)

lemma localCache_init [simp]: "localCache k g init = emptyLocal"
  by (simp add: localCache_def init_def cacheObj_def emptyCache_def split: option.splits)

lemma heap_writes [simp]:
  "heap (initCache k s) = heap s"
  "heap (initGroup k t s) = heap s"
  "heap (setLocal k g c s) = heap s"
  "heap (record_event e s) = heap s"
  "heap (linksSet k g i a s) = heap s"
  "heap (linksDelete k g i s) = heap s"
  "heap (labelsSet k g l v s) = heap s"
  "heap (newClosure cl s) = heap s"
  "heap (assignId j i s) = heap s"
  "heap (newLink ln s) = (heap s)(nextAddr s := ln)"
  by (simp_all add: initCache_def initGroup_def setLocal_def record_event_def linksSet_def
        linksDelete_def labelsSet_def newClosure_def assignId_def newLink_def
        split: option.splits)

lemma nextAddr_writes [simp]:
  "nextAddr (initCache k s) = nextAddr s"
  "nextAddr (initGroup k t s) = nextAddr s"
  "nextAddr (setLocal k g c s) = nextAddr s"
  "nextAddr (record_event e s) = nextAddr s"
  "nextAddr (linksSet k g i a s) = nextAddr s"
  "nextAddr (linksDelete k g i s) = nextAddr s"
  "nextAddr (labelsSet k g l v s) = nextAddr s"
  "nextAddr (newClosure cl s) = nextAddr s"
  "nextAddr (assignId j i s) = nextAddr s"
  "nextAddr (promiseForward res rej ob r s) = nextAddr s"
  "nextAddr (newLink ln s) = Suc (nextAddr s)"
  by (simp_all add: initCache_def initGroup_def setLocal_def record_event_def linksSet_def
        linksDelete_def labelsSet_def newClosure_def assignId_def newLink_def
        promiseForward_def Let_def split: option.splits)

lemma trace_writes [simp]:
  "trace (initCache k s) = trace s"
  "trace (initGroup k t s) = trace s"
  "trace (setLocal k g c s) = trace s"
  "trace (record_event e s) = trace s @ [e]"
  "trace (linksSet k g i a s) = trace s @ [LinksSet k g i a]"
  "trace (linksDelete k g i s) = trace s @ [LinksDelete k g i]"
  "trace (labelsSet k g l v s) = trace s @ [LabelsSet k g l v]"
  "trace (newClosure cl s) = trace s"
  "trace (assignId j i s) = trace s"
  "trace (promiseForward res rej ob r s) = trace s"
  "trace (newLink ln s) = trace s"
  by (simp_all add: initCache_def initGroup_def setLocal_def record_event_def linksSet_def
        linksDelete_def labelsSet_def newClosure_def assignId_def newLink_def
        promiseForward_def Let_def split: option.splits)

lemma closures_writes [simp]:
  "closures (initCache k s) = closures s"
  "closures (initGroup k t s) = closures s"
  "closures (setLocal k g c s) = closures s"
  "closures (record_event e s) = closures s"
  "closures (linksSet k g i a s) = closures s"
  "closures (linksDelete k g i s) = closures s"
  "closures (labelsSet k g l v s) = closures s"
  "closures (promiseForward res rej ob r s) = closures s"
  "closures (newLink ln s) = closures s"
  by (simp_all add: initCache_def initGroup_def setLocal_def record_event_def linksSet_def
        linksDelete_def labelsSet_def newLink_def promiseForward_def Let_def
        split: option.splits)

lemma closures_alloc [simp]:
  "closures (newClosure c s) = (closures s)(nextClosure s := c)"
  "closures (assignId k i s) = (closures s)(k := (closures s k)\<lparr>cl_id := i\<rparr>)"
  by (simp_all add: newClosure_def assignId_def)

lemma nextClosure_writes [simp]:
  "nextClosure (initCache k s) = nextClosure s"
  "nextClosure (initGroup k t s) = nextClosure s"
  "nextClosure (setLocal k g c s) = nextClosure s"
  "nextClosure (record_event e s) = nextClosure s"
  "nextClosure (linksSet k g i a s) = nextClosure s"
  "nextClosure (linksDelete k g i s) = nextClosure s"
  "nextClosure (labelsSet k g l v s) = nextClosure s"
  "nextClosure (newClosure cl s) = Suc (nextClosure s)"
  "nextClosure (assignId j i s) = nextClosure s"
  "nextClosure (promiseForward res rej ob r s) = nextClosure s"
  "nextClosure (newLink ln s) = nextClosure s"
  by (simp_all add: initCache_def initGroup_def setLocal_def record_event_def linksSet_def
        linksDelete_def labelsSet_def newClosure_def assignId_def newLink_def
        promiseForward_def Let_def split: option.splits)

lemma nextHandle_writes [simp]:
  "nextHandle (initCache k s) = nextHandle s"
  "nextHandle (initGroup k t s) = nextHandle s"
  "nextHandle (setLocal k g c s) = nextHandle s"
  "nextHandle (record_event e s) = nextHandle s"
  "nextHandle (linksSet k g i a s) = nextHandle s"
  "nextHandle (linksDelete k g i s) = nextHandle s"
  "nextHandle (labelsSet k g l v s) = nextHandle s"
  "nextHandle (newClosure cl s) = nextHandle s"
  "nextHandle (assignId j i s) = nextHandle s"
  "nextHandle (promiseForward res rej ob r s) = nextHandle s"
  "nextHandle (newLink ln s) = nextHandle s"
  by (simp_all add: initCache_def initGroup_def setLocal_def record_event_def linksSet_def
        linksDelete_def labelsSet_def newClosure_def assignId_def newLink_def
        promiseForward_def Let_def split: option.splits)

lemma initCache_defined:
  "labels (localCache k g s) l \<noteq> Undefined \<Longrightarrow> initCache k s = s"
  by (auto simp: initCache_def localCache_def cacheObj_def emptyCache_def
           split: option.splits)

lemma initGroup_defined:
  "labels (localCache k (Some t) s) l \<noteq> Undefined \<Longrightarrow> initGroup k t s = s"
  by (auto simp: initGroup_def localCache_def split: option.splits)

lemma clearCache_initCache [simp]: "clearCache p (initCache k s) = clearCache p s"
  by (auto simp: clearCache_def initCache_def cacheObj_def emptyCache_def split: option.splits)

lemma initCache_idem [simp]: "initCache k (initCache k s) = initCache k s"
  by (auto simp: initCache_def split: option.splits)

lemma clearCache_ident [simp]: "clearCache (p\<lparr>ident := i\<rparr>) s = clearCache p s"
  by (simp add: clearCache_def split: option.splits)


lemma links_nonempty_cache:
  assumes "links (localCache (name p) (if truthyStr (group p) then group p else None) s) \<noteq> []"
  shows "clearCache p s = Some (if truthyStr (group p) then group p else None)"
    and "initCache (name p) s = s"
  using assms
  by (auto simp: clearCache_def localCache_def initCache_def cacheObj_def emptyCache_def
        truthyStr_def propKey_def split: option.splits if_splits)

lemma record_events_Nil [simp]: "record_events [] s = s"
  by (simp add: record_events_def)

lemma record_events_append: "record_events es (record_events es' s) = record_events (es' @ es) s"
  by (simp add: record_events_def)

lemma record_event_events: "record_event e s = record_events [e] s"
  by (simp add: record_events_def record_event_def)

lemma record_events_event: "record_events es (record_event e s) = record_events (e # es) s"
  by (simp add: record_events_def record_event_def)

lemma heap_record_events [simp]: "heap (record_events es s) = heap s"
  by (simp add: record_events_def)

lemma nextAddr_record_events [simp]: "nextAddr (record_events es s) = nextAddr s"
  by (simp add: record_events_def)

lemma trace_record_events [simp]: "trace (record_events es s) = trace s @ es"
  by (simp add: record_events_def)

lemma localCache_record_events [simp]: "localCache k g (record_events es s) = localCache k g s"
  by (simp add: localCache_def record_events_def cacheObj_def split: option.splits)

lemma localCache_unlinked:
  "localCache k g (unlinked k g i l s) =
     (localCache k g s)\<lparr>links := map_delete i (links (localCache k g s)),
        labels := (labels (localCache k g s))(propKey l := Undefined)\<rparr>"
  by (simp add: unlinked_def localCache_labelsSet localCache_linksDelete)

lemma heap_unlinked [simp]: "heap (unlinked k g i l s) = heap s"
  by (simp add: unlinked_def)

lemma trace_unlinked [simp]:
  "trace (unlinked k g i l s) = trace s @ [LinksDelete k g i, LabelsSet k g (propKey l) Undefined]"
  by (simp add: unlinked_def)

subsection \<open>The \<^verbatim>\<open>Map\<close> and its iterator\<close>

lemma map_get_nonempty: "map_get i m = Some a \<Longrightarrow> m \<noteq> []"
  by auto

lemma map_get_map_set [simp]: "map_get k (map_set k v m) = Some v"
  by (induction k v m rule: map_set.induct) auto



subsection \<open>Clearing by a label that holds nothing\<close>



subsection \<open>Clearing a live Link\<close>

lemma clearAsync_resolved:
  assumes g: "g = (if truthyStr (group p) then group p else None)"
    and i: "i = (if truthyStr (label p) then labels (localCache (name p) g s) (propKey (label p))
                 else ident p)"
    and agree: "ident p = Undefined \<or> ident p = i"
    and def: "i \<noteq> Undefined"
    and live: "map_get i (links (localCache (name p) g s)) = Some a"
  shows "clearAsync \<Gamma> (Suc n) p s =
           (case exec \<Gamma> n (TClearHandlers a (cancelCtx p i a) 0)
                   (unlinked (name p) g (link_id (heap s a)) (link_label (heap s a)) s) of
              None \<Rightarrow> None
            | Some (Throw e, s3) \<Rightarrow> Some (Throw e, s3)
            | Some (Return v, s3) \<Rightarrow>
                (case clearFn p of
                   None \<Rightarrow> Some (Return Undefined, s3)
                 | Some d \<Rightarrow>
                     (case callClearFn \<Gamma> d (link_id (heap s3 a)) (cancelCtx p i a) s3 of
                        (Throw e, s4) \<Rightarrow> Some (Throw e, s4)
                      | (Return w, s4) \<Rightarrow> Some (Return Undefined, s4))))"
proof -
  from live have ne: "links (localCache (name p) g s) \<noteq> []" by (rule map_get_nonempty)
  from links_nonempty_cache [of p s] ne g
  have cc: "clearCache p s = Some g" and ic: "initCache (name p) s = s" by simp_all
  define q where "q = (if truthyStr (label p)
      then p\<lparr>ident := labels (localCache (name p) g s) (propKey (label p))\<rparr> else p)"
  have qi: "q = p\<lparr>ident := i\<rparr>"
    unfolding q_def using i by (cases "truthyStr (label p)") simp_all
  have nr: "(truthyStr (label p) \<and> ident p \<noteq> Undefined
               \<and> ident p \<noteq> labels (localCache (name p) g s) (propKey (label p))) = False"
    using agree i by auto
  have cf: "clearFn (p\<lparr>ident := i\<rparr>) = clearFn p" by simp
  show ?thesis
    unfolding clearAsync_Suc clearAsync_body_def Let_def ic cc option.case
    unfolding nr if_False q_def [symmetric]
    unfolding qi cancelCtx_def unlinked_def cf
    using def live
    by simp
qed

lemma call_inert:
  assumes "inert \<Gamma> f"
  shows "\<exists>v. exec \<Gamma> (Suc (Suc n)) (TCall f x) s = Some (Return v, record_event (Called f x) s)"
  using assms
  by (cases f) (simp_all add: inert_def exec_TCall call_body_def exec_TRunBody runBody_body_def)


lemma clearHandlers_throw:
  assumes "link_onClear (heap s a) = pre @ User k # rest"
    and "\<forall>f \<in> set pre. inert \<Gamma> f"
    and "body \<Gamma> k = Raise # cs"
  shows "i \<le> length pre \<Longrightarrow> length pre - i + 3 \<le> n \<Longrightarrow>
         exec \<Gamma> n (TClearHandlers a ctx i) s =
           Some (Throw UserError, record_events (hooksCalled (drop i pre @ [User k]) ctx) s)"
  using assms(1)
proof (induction n arbitrary: i s)
  case 0
  then show ?case by simp
next
  case (Suc n)
  let ?hs = "link_onClear (heap s a)"
  from Suc.prems obtain n' where n': "n = Suc (Suc n')"
    by (cases n; cases "n - 1") auto
  have il: "i < length ?hs" using Suc.prems by simp
  show ?case
  proof (cases "i < length pre")
    case False
    with Suc.prems have ie: "i = length pre" by simp
    then have f: "?hs ! i = User k" using Suc.prems(3) by simp
    have "exec \<Gamma> n (TCall (User k) (CtxArg ctx)) s
            = Some (Throw UserError, record_event (Called (User k) (CtxArg ctx)) s)"
      unfolding n' using assms(3)
      by (simp add: exec_TCall call_body_def exec_TRunBody runBody_body_def)
    with il f ie show ?thesis
      by (simp add: exec_TClearHandlers clearHandlers_body_def hooksCalled_def
            record_event_events)
  next
    case True
    then have f: "?hs ! i = pre ! i" using Suc.prems(3) by (simp add: nth_append)
    with True assms(2) have "inert \<Gamma> (?hs ! i)" by simp
    from call_inert [OF this, of n' "CtxArg ctx" s] obtain v where
      c: "exec \<Gamma> n (TCall (?hs ! i) (CtxArg ctx)) s
            = Some (Return v, record_event (Called (?hs ! i) (CtxArg ctx)) s)"
      unfolding n' by blast
    let ?s1 = "record_event (Called (?hs ! i) (CtxArg ctx)) s"
    have h: "link_onClear (heap ?s1 a) = pre @ User k # rest" using Suc.prems(3) by simp
    have "Suc i \<le> length pre" using True by simp
    moreover have "length pre - Suc i + 3 \<le> n" using Suc.prems(2) True by simp
    ultimately have "exec \<Gamma> n (TClearHandlers a ctx (Suc i)) ?s1 =
        Some (Throw UserError, record_events (hooksCalled (drop (Suc i) pre @ [User k]) ctx) ?s1)"
      using h by (rule Suc.IH)
    with c il True f show ?thesis
      by (simp add: exec_TClearHandlers clearHandlers_body_def record_events_event
            hooksCalled_def Cons_nth_drop_Suc [symmetric])
  qed
qed


lemma clearAsync_hook_throws:
  assumes g: "g = (if truthyStr (group p) then group p else None)"
    and i: "i = (if truthyStr (label p) then labels (localCache (name p) g s) (propKey (label p))
                 else ident p)"
    and agree: "ident p = Undefined \<or> ident p = i"
    and def: "i \<noteq> Undefined"
    and live: "map_get i (links (localCache (name p) g s)) = Some a"
    and hooks: "link_onClear (heap s a) = pre @ User k # rest"
    and pre: "\<forall>f \<in> set pre. inert \<Gamma> f"
    and throws: "body \<Gamma> k = Raise # cs"
    and fuel: "length pre + 4 \<le> n"
  shows "clearAsync \<Gamma> n p s =
           Some (Throw UserError,
                 record_events (hooksCalled (pre @ [User k]) (cancelCtx p i a))
                   (unlinked (name p) g (link_id (heap s a)) (link_label (heap s a)) s))"
proof -
  from fuel obtain n' where n': "n = Suc n'" by (cases n) auto
  let ?s2 = "unlinked (name p) g (link_id (heap s a)) (link_label (heap s a)) s"
  have h2: "link_onClear (heap ?s2 a) = pre @ User k # rest"
    using hooks by simp
  have "length pre - 0 + 3 \<le> n'" using fuel n' by simp
  from clearHandlers_throw [OF h2 pre throws _ this, of "cancelCtx p i a"]
  have "exec \<Gamma> n' (TClearHandlers a (cancelCtx p i a) 0) ?s2 =
          Some (Throw UserError, record_events (hooksCalled (pre @ [User k]) (cancelCtx p i a)) ?s2)"
    by simp
  then show ?thesis
    unfolding n' clearAsync_resolved [OF g i agree def live] by simp
qed

lemma localCache_callClearFn [simp]:
  "localCache k g (snd (callClearFn \<Gamma> d i ctx s)) = localCache k g s"
  by (cases d) (simp_all add: callClearFn_def workerDestructor_def requestDestructor_def Let_def)



lemma unlinked_counters [simp]:
  "nextAddr (unlinked k g i l s) = nextAddr s"
  "nextHandle (unlinked k g i l s) = nextHandle s"
  "nextClosure (unlinked k g i l s) = nextClosure s"
  "closures (unlinked k g i l s) = closures s"
  by (simp_all add: unlinked_def)

lemma localCache_unlinked_other:
  "\<not> (k' = k \<and> g' = g) \<Longrightarrow> localCache k' g' (unlinked k g i l s) = localCache k' g' s"
  by (auto simp: unlinked_def localCache_labelsSet localCache_linksDelete)

subsection \<open>Registering\<close>

lemma localCache_prepared [simp]: "localCache k g (prepared p s) = localCache k g s"
  by (simp add: prepared_def)

lemma prepared_fields [simp]:
  "heap (prepared p s) = heap s" "nextAddr (prepared p s) = nextAddr s"
  "trace (prepared p s) = trace s" "closures (prepared p s) = closures s"
  "nextHandle (prepared p s) = nextHandle s" "nextClosure (prepared p s) = nextClosure s"
  by (simp_all add: prepared_def)

lemma prepared_occupied:
  assumes "labels (localCache (name p) (if truthyStr (group p) then group p else None) s) l
             \<noteq> Undefined"
  shows "prepared p s = s"
proof -
  have c: "initCache (name p) s = s" using assms by (rule initCache_defined)
  have g: "truthyStr (group p) \<Longrightarrow> initGroup (name p) (propKey (group p)) s = s"
  proof -
    assume t: "truthyStr (group p)"
    then obtain u where u: "group p = Some u"
      by (auto simp: truthyStr_def split: option.splits)
    with assms t have "labels (localCache (name p) (Some u) s) l \<noteq> Undefined"
      by simp
    then have "initGroup (name p) u s = s" by (rule initGroup_defined)
    with u show ?thesis by (simp add: propKey_def)
  qed
  show ?thesis using c g by (simp add: prepared_def)
qed


lemma applyWrapper_frame [simp]:
  "localCache k g (snd (applyWrapper \<Gamma> w cb x s)) = localCache k g s"
  "heap (snd (applyWrapper \<Gamma> w cb x s)) = heap s"
  "nextAddr (snd (applyWrapper \<Gamma> w cb x s)) = nextAddr s"
  by (cases w; cases x; simp add: applyWrapper_def)+

lemma applyWrapper_trace:
  "\<exists>es. trace (snd (applyWrapper \<Gamma> w cb x s)) = trace s @ es \<and> (\<forall>e \<in> set es. quiet e)"
  by (cases w; cases x) (auto simp: applyWrapper_def quiet_def)

lemma wrapAndStart_result:
  assumes "wrapAndStart \<Gamma> p g f s = (r, s')"
  shows "localCache k g' s' = localCache k g' s \<and> heap s' = heap s \<and> nextAddr s' = nextAddr s"
proof (cases "wrapper p")
  case None
  with assms show ?thesis
    by (auto simp: wrapAndStart_def Let_def split: if_splits)
next
  case (Some w)
  let ?wrapped = "\<not> interval p \<or> isFunction f"
  let ?s3 = "if ?wrapped
             then newClosure \<lparr>cl_name = name p, cl_group = g, cl_id = f,
                    cl_interval = interval p, cl_label = label p, cl_finalObj = f\<rparr> s
             else s"
  let ?cb = "if ?wrapped then Fn (Wrapped (nextClosure s)) else f"
  let ?x = "if needCall p then Some f else None"
  obtain r4 s4 where a: "applyWrapper \<Gamma> w ?cb ?x ?s3 = (r4, s4)"
    by (cases "applyWrapper \<Gamma> w ?cb ?x ?s3")
  have s4: "s4 = snd (applyWrapper \<Gamma> w ?cb ?x ?s3)" using a by simp
  have f4: "localCache k g' s4 = localCache k g' s" "heap s4 = heap s" "nextAddr s4 = nextAddr s"
    unfolding s4 by simp_all
  from assms Some a
  have "s' = s4 \<or> s' = assignId (nextClosure s) (case r4 of Return l \<Rightarrow> l | Throw e \<Rightarrow> Undefined) s4"
    by (cases r4) (auto simp: wrapAndStart_def Let_def split: if_splits)
  with f4 show ?thesis by auto
qed

lemma wrapAndStart_frame [simp]:
  "localCache k g' (snd (wrapAndStart \<Gamma> p g f s)) = localCache k g' s"
  "heap (snd (wrapAndStart \<Gamma> p g f s)) = heap s"
  "nextAddr (snd (wrapAndStart \<Gamma> p g f s)) = nextAddr s"
  using wrapAndStart_result [of \<Gamma> p g f s "fst (wrapAndStart \<Gamma> p g f s)"
          "snd (wrapAndStart \<Gamma> p g f s)"]
  by simp_all

lemma wrapAndStart_trace:
  "\<exists>es. trace (snd (wrapAndStart \<Gamma> p g f s)) = trace s @ es \<and> (\<forall>e \<in> set es. quiet e)"
proof (cases "wrapper p")
  case None
  then show ?thesis by (simp add: wrapAndStart_def Let_def)
next
  case (Some w)
  let ?wrapped = "\<not> interval p \<or> isFunction f"
  let ?s3 = "if ?wrapped
             then newClosure \<lparr>cl_name = name p, cl_group = g, cl_id = f,
                    cl_interval = interval p, cl_label = label p, cl_finalObj = f\<rparr> s
             else s"
  let ?cb = "if ?wrapped then Fn (Wrapped (nextClosure s)) else f"
  let ?x = "if needCall p then Some f else None"
  obtain r4 s4 where a: "applyWrapper \<Gamma> w ?cb ?x ?s3 = (r4, s4)"
    by (cases "applyWrapper \<Gamma> w ?cb ?x ?s3")
  from applyWrapper_trace [of \<Gamma> w ?cb ?x ?s3] a
  obtain es where es: "trace s4 = trace ?s3 @ es" "\<forall>e \<in> set es. quiet e" by auto
  have t3: "trace ?s3 = trace s" by simp
  from Some a have "trace (snd (wrapAndStart \<Gamma> p g f s)) = trace s4"
    by (cases r4) (auto simp: wrapAndStart_def Let_def)
  with es t3 show ?thesis by auto
qed

lemma wrapAndStart_plain:
  assumes "wrapper p = None
           \<or> (wrapper p = Some ThenBoth \<and> needCall p \<and> ''then'' \<in> set (methodsOf \<Gamma> f))"
    and "\<not> linkByWrapper p"
  shows "fst (wrapAndStart \<Gamma> p g f s) = Return f"
  using assms
  by (auto simp: wrapAndStart_def Let_def applyWrapper_def)

lemma wrapAndStart_timer:
  assumes "wrapper p = Some HostTimer" "linkByWrapper p" "isFunction f"
  shows "wrapAndStart \<Gamma> p g f s = (Return (Num (Suc (nextHandle s))), started p g f s)"
  using assms
  by (simp add: wrapAndStart_def Let_def applyWrapper_def started_def newClosure_def)

lemma started_frame [simp]:
  "localCache k g' (started p g f s) = localCache k g' s"
  "heap (started p g f s) = heap s"
  "nextAddr (started p g f s) = nextAddr s"
  "nextHandle (started p g f s) = Suc (nextHandle s)"
  "nextClosure (started p g f s) = Suc (nextClosure s)"
  "trace (started p g f s) =
     trace s @ [Scheduled (Fn (Wrapped (nextClosure s))) (Num (Suc (nextHandle s)))]"
  by (simp_all add: started_def)

lemma started_closure:
  "closures (started p g f s) (nextClosure s) =
     \<lparr>cl_name = name p, cl_group = g, cl_id = Num (Suc (nextHandle s)),
      cl_interval = interval p, cl_label = label p, cl_finalObj = f\<rparr>"
  by (simp add: started_def)

lemma installLink_unlabelled:
  "\<not> truthyStr (label p) \<Longrightarrow> installLink p g i a s = linksSet (name p) g i a s"
  by (simp add: installLink_def)

lemma installLink_frame [simp]:
  "heap (installLink p g i a s) = heap s"
  "nextAddr (installLink p g i a s) = nextAddr s"
  "nextHandle (installLink p g i a s) = nextHandle s"
  "nextClosure (installLink p g i a s) = nextClosure s"
  "closures (installLink p g i a s) = closures s"
  "trace (installLink p g i a s) =
     trace s @ LinksSet (name p) g i a
       # (if truthyStr (label p) then [LabelsSet (name p) g (propKey (label p)) i] else [])"
  by (simp_all add: installLink_def)

lemma localCache_installLink:
  "localCache k g' (installLink p g i a s) =
     (if k = name p \<and> g' = g
      then (localCache k g' s)
             \<lparr>links := map_set i a (links (localCache k g' s)),
              labels := (if truthyStr (label p)
                         then (labels (localCache k g' s))(propKey (label p) := i)
                         else labels (localCache k g' s))\<rparr>
      else localCache k g' s)"
  by (simp add: installLink_def localCache_labelsSet localCache_linksSet)

lemma setAsync_joined:
  assumes "join p = JoinTrue"
    and "truthy (labels (localCache (name p) (if truthyStr (group p) then group p else None) s)
                   (propKey (label p)))"
  shows "setAsync \<Gamma> (Suc n) p s =
           Some (Return (labels (localCache (name p)
                           (if truthyStr (group p) then group p else None) s)
                   (propKey (label p))), s)"
proof -
  have pr: "prepared p s = s"
    using assms(2) by (intro prepared_occupied truthy_defined)
  show ?thesis
    unfolding setAsync_Suc setAsync_body_def Let_def
    unfolding prepared_def [symmetric] pr
    using assms by simp
qed

lemma setAsync_fresh:
  assumes g: "g = (if truthyStr (group p) then group p else None)"
    and lc: "\<not> truthy (labels (localCache (name p) g s) (propKey (label p)))"
    and nc: "\<not> (needCall p \<and> isFunction (obj p))"
    and ob: "obj p \<noteq> Undefined"
    and ws: "wrapAndStart \<Gamma> p g (obj p) (prepared p s) = (Return i, s5)"
  shows "setAsync \<Gamma> (Suc n) p s =
           Some (Return i, installLink p g i (nextAddr s) (newLink (linkOf p i) s5))"
proof -
  have lc': "\<not> truthy (labels (localCache (name p) g (prepared p s)) (propKey (label p)))"
    using lc by simp
  from wrapAndStart_result [OF ws] have na: "nextAddr s5 = nextAddr s" by simp
  have nc': "(needCall p \<and> isFunction (obj p)) = False" using nc by simp
  show ?thesis
    unfolding setAsync_Suc setAsync_body_def Let_def
    unfolding prepared_def [symmetric] g [symmetric] nc' if_False
    using lc' ob ws na by simp
qed



subsection \<open>Calling functions\<close>

lemma call_Resolve:
  "exec \<Gamma> (Suc n) (TCall (Resolve m) x) s =
     Some (Return Undefined, record_event (Called (Resolve m) x) s)"
  by (simp add: exec_TCall call_body_def)

lemma call_Reject:
  "exec \<Gamma> (Suc n) (TCall (Reject m) x) s =
     Some (Return Undefined, record_event (Called (Reject m) x) s)"
  by (simp add: exec_TCall call_body_def)

lemma isPromiseLike_Fn [simp]: "\<not> isPromiseLike \<Gamma> (Fn f)"
  by (simp add: isPromiseLike_def methodsOf_def)

lemma execTasks_none:
  "link_onComplete (heap s a) = [] \<Longrightarrow>
   exec \<Gamma> (Suc n) (TExecTasks a i x 0) s = Some (Return Undefined, s)"
  by (simp add: exec_TExecTasks execTasks_body_def)

lemma call_wrapped_single_shot:
  assumes cl: "closures s k = cl" and ni: "\<not> cl_interval cl" and fo: "cl_finalObj cl = Fn f"
    and live: "map_get (cl_id cl) (links (localCache (cl_name cl) (cl_group cl) s)) = Some a"
    and s1: "s1 = unlinked (cl_name cl) (cl_group cl) (cl_id cl) (cl_label cl)
                    (record_event (Called (Wrapped k) x) s)"
    and pay: "exec \<Gamma> n (TCall f x) s1 = Some (Return v, s2)"
    and oc: "link_onComplete (heap s2 a) = []"
    and pos: "0 < n"
  shows "call \<Gamma> (Suc (Suc n)) (Wrapped k) x s = Some (Return v, s2)"
proof -
  from pos obtain n' where n': "n = Suc n'" by (cases n) auto
  let ?s0 = "record_event (Called (Wrapped k) x) s"
  have c0: "closures ?s0 k = cl" using cl by simp
  have l0: "map_get (cl_id cl) (links (localCache (cl_name cl) (cl_group cl) ?s0)) = Some a"
    using live by simp
  have ex: "exec \<Gamma> n (TExecTasks a False x 0) s2 = Some (Return Undefined, s2)"
    unfolding n' using oc by (rule execTasks_none)
  have w: "exec \<Gamma> (Suc n) (TWrappedObj k x) ?s0 = Some (Return v, s2)"
    unfolding exec_TWrappedObj wrappedObj_body_def Let_def c0 l0 option.case
    using ni fo pay ex by (simp add: s1 unlinked_def)
  show ?thesis
    by (simp add: call_Suc call_body_def w)
qed

subsection \<open>More on the \<^verbatim>\<open>Map\<close>\<close>

lemma map_set_twice [simp]: "map_set k v (map_set k v' m) = map_set k v m"
  by (induction k v' m rule: map_set.induct) auto

lemma in_set_map_set:
  "Some (key, a) \<in> set (map_set k v m) \<Longrightarrow> (key = k \<and> a = v) \<or> Some (key, a) \<in> set m"
  by (induction k v m rule: map_set.induct) (auto split: if_splits)

lemma length_map_set_present:
  "map_get k m = Some v' \<Longrightarrow> length (map_set k v m) = length m"
  by (induction k v m rule: map_set.induct) (auto split: if_splits)

lemma map_delete_Nil [simp]: "(map_delete k m = []) = (m = [])"
  by (induction k m rule: map_delete.induct) auto

subsection \<open>The example states\<close>

lemma init_fields [simp]:
  "heap init a = noLink" "nextAddr init = 0" "trace init = []" "nextHandle init = 0"
  "nextClosure init = 0" "closures init k = noClosure"
  by (simp_all add: init_def)

lemma registered_cache:
  "links (localCache (name q) None (registered q)) = [Some (Num 1, 0)]"
  "labels (localCache (name q) None (registered q)) =
     (if truthyStr (label q) then (\<lambda>k. Undefined)(propKey (label q) := Num 1)
      else (\<lambda>k. Undefined))"
  by (simp_all add: registered_def localCache_installLink emptyLocal_def fun_eq_iff)

lemma registered_fields:
  "heap (registered q) 0 = linkOf q (Num 1)"
  "nextAddr (registered q) = 1" "nextHandle (registered q) = 1"
  "nextClosure (registered q) = 1"
  "closures (registered q) 0 =
     \<lparr>cl_name = name q, cl_group = None, cl_id = Num 1, cl_interval = interval q,
      cl_label = label q, cl_finalObj = obj q\<rparr>"
  "trace (registered q) =
     [Scheduled (Fn (Wrapped 0)) (Num 1), LinksSet (name q) None (Num 1) 0]
     @ (if truthyStr (label q) then [LabelsSet (name q) None (propKey (label q)) (Num 1)] else [])"
  using started_closure [of q None "obj q" "initCache (name q) init"]
  by (simp_all add: registered_def)

lemma setAsync_registered:
  assumes "wrapper q = Some HostTimer" "linkByWrapper q" "isFunction (obj q)"
    and "\<not> needCall q" "\<not> truthyStr (group q)"
  shows "setAsync \<Gamma> (Suc n) q init = Some (Return (Num 1), registered q)"
proof -
  have g: "None = (if truthyStr (group q) then group q else None)" using assms(5) by simp
  have lc: "\<not> truthy (labels (localCache (name q) None init) (propKey (label q)))" by simp
  have nc: "\<not> (needCall q \<and> isFunction (obj q))" using assms(4) by simp
  have ob: "obj q \<noteq> Undefined" using assms(3) by (cases "obj q") auto
  have pr: "prepared q init = initCache (name q) init" using assms(5) by (simp add: prepared_def)
  have ws: "wrapAndStart \<Gamma> q None (obj q) (prepared q init)
              = (Return (Num 1), started q None (obj q) (initCache (name q) init))"
    unfolding pr using wrapAndStart_timer [OF assms(1-3), of \<Gamma> None "initCache (name q) init"]
    by simp
  from setAsync_fresh [OF g lc nc ob ws, of n] show ?thesis
    by (simp add: registered_def)
qed

lemma sleep_params: "sleep \<Gamma> n m ps s = setAsync \<Gamma> n (sleepParams m ps) s"
  by (simp add: sleep_def setTimeout_def sleepParams_def)

lemma sleepA_fields:
  "name (sleepParams m joinA) = Timeout" "group (sleepParams m joinA) = None"
  "label (sleepParams m joinA) = Some ''a''" "join (sleepParams m joinA) = JoinTrue"
  "obj (sleepParams m joinA) = Fn (Resolve m)" "interval (sleepParams m joinA) = False"
  "wrapper (sleepParams m joinA) = Some HostTimer" "linkByWrapper (sleepParams m joinA)"
  "needCall (sleepParams m joinA) = False"
  "onClear (sleepParams m joinA) = [PromiseClear (Resolve m) (Reject m)]"
  by (simp_all add: sleepParams_def joinA_def noParams_def onPromiseClear_def)

lemma slept_cache:
  "links (localCache Timeout None slept) = [Some (Num 1, 0)]"
  "labels (localCache Timeout None slept) = (\<lambda>k. Undefined)(''a'' := Num 1)"
  using registered_cache [of "sleepParams 1 joinA"]
  by (simp_all add: slept_def sleepA_fields truthyStr_def propKey_def)

lemma slept_heap:
  "heap slept 0 = \<lparr>link_id = Num 1, link_obj = Fn (Resolve 1), link_label = Some ''a'',
     link_onComplete = [], link_onClear = [PromiseClear (Resolve 1) (Reject 1)]\<rparr>"
  by (simp add: slept_def registered_fields linkOf_def sleepA_fields)



lemma hooked_cache:
  "links (localCache Timeout None hooked) = [Some (Num 1, 0)]"
  "labels (localCache Timeout None hooked) = (\<lambda>k. Undefined)"
  by (simp_all add: hooked_def localCache_linksSet emptyLocal_def fun_eq_iff)

lemma hooked_heap:
  "heap hooked 0 = \<lparr>link_id = Num 1, link_obj = Fn (User 1), link_label = None,
     link_onComplete = [], link_onClear = [User 0, Reject 1]\<rparr>"
  by (simp add: hooked_def)







subsection \<open>Firing a single-shot task that registers again\<close>


subsection \<open>What every call keeps\<close>

lemma extends_refl [simp]: "extends m m"
  by (simp add: extends_def)






lemma grows_refl [simp]: "grows k g s s"
  by (simp add: grows_def)




lemma hasGroup_setLocal:
  "hasGroup k t (setLocal k' g' c s) = (hasGroup k t s \<or> (k = k' \<and> g' = Some t))"
  by (auto simp: hasGroup_def setLocal_def cacheObj_def emptyCache_def split: option.splits)

lemma hasGroup_writes [simp]:
  "hasGroup k t (initCache k' s) = hasGroup k t s"
  "hasGroup k t (record_event e s) = hasGroup k t s"
  "hasGroup k t (newClosure cl s) = hasGroup k t s"
  "hasGroup k t (assignId j i s) = hasGroup k t s"
  "hasGroup k t (newLink ln s) = hasGroup k t s"
  "hasGroup k t (promiseForward res rej ob r s) = hasGroup k t s"
  "hasGroup k t (s\<lparr>nextHandle := h\<rparr>) = hasGroup k t s"
  by (auto simp: hasGroup_def initCache_def record_event_def newClosure_def assignId_def
        newLink_def promiseForward_def Let_def cacheObj_def emptyCache_def split: option.splits)


lemma hasGroup_links [simp]:
  "hasGroup k t s \<Longrightarrow> hasGroup k t (linksSet k' g' i a s)"
  "hasGroup k t s \<Longrightarrow> hasGroup k t (linksDelete k' g' i s)"
  "hasGroup k t s \<Longrightarrow> hasGroup k t (labelsSet k' g' l v s)"
  by (simp_all add: linksSet_def linksDelete_def labelsSet_def hasGroup_setLocal)

lemma link_id_promiseForward [simp]:
  "link_id (heap (promiseForward res rej ob r s) a) = link_id (heap s a)"
  by (simp add: promiseForward_def Let_def)



lemma keeps_after [simp]:
  "keeps k g s (record_event e s1) = keeps k g s s1"
  "keeps k g s (newClosure cl s1) = keeps k g s s1"
  "keeps k g s (assignId j i s1) = keeps k g s s1"
  "keeps k g s (s1\<lparr>nextHandle := h\<rparr>) = keeps k g s s1"
  by (simp_all add: keeps_def keyed_def grows_def cong: option.case_cong)







lemma keeps_growsD: "keeps k g s s' \<Longrightarrow> keyed k g s \<Longrightarrow> grows k g s s'"
  by (simp add: keeps_def)

lemma keeps_keyedD: "keeps k g s s' \<Longrightarrow> keyed k g s \<Longrightarrow> keyed k g s'"
  by (simp add: keeps_def)














lemma cleared_0 [simp]: "cleared 0 m"
  by (simp add: cleared_def)

lemma cleared_mono: "cleared j m \<Longrightarrow> i \<le> j \<Longrightarrow> cleared i m"
  by (simp add: cleared_def)







lemma length_map_delete [simp]: "length (map_delete k m) = length m"
  by (induction k m rule: map_delete.induct) auto

subsection \<open>The walk of a bulk clear\<close>

lemma clearCache_grows:
  assumes "clearCache p s = Some g" "grows (name p) g' s s1"
  shows "clearCache p s1 = Some g"
proof (cases "truthyStr (group p)")
  case False
  with assms(1) show ?thesis by (simp add: clearCache_def)
next
  case True
  with assms(1) have "hasGroup (name p) (propKey (group p)) s" and g: "g = group p"
    by (auto simp: clearCache_def hasGroup_def split: option.splits)
  with assms(2) have "hasGroup (name p) (propKey (group p)) s1"
    by (simp add: grows_def)
  with True g show ?thesis
    by (auto simp: clearCache_def hasGroup_def split: option.splits)
qed










subsection \<open>A hook that registers during a bulk clear\<close>

















section \<open>The claims\<close>

text \<open>
  C5. A call of \<^verbatim>\<open>setAsync\<close> with \<^verbatim>\<open>join === true\<close> whose label already holds an id in
  the LocalCache of its kind and group returns that id at once, with any fuel: the
  state is the one it started from, so no Link is created, nothing is written to the
  registry and no primitive is started, and the payload is never looked at.
\<close>

theorem setAsync_join_true_returns_prior:
  assumes "join p = JoinTrue"
    and "truthy (labels (localCache (name p) (if truthyStr (group p) then group p else None) s)
                   (propKey (label p)))"
  shows "setAsync \<Gamma> (Suc n) p s =
           Some (Return (labels (localCache (name p)
                           (if truthyStr (group p) then group p else None) s)
                   (propKey (label p))), s)"
  using assms by (rule setAsync_joined)

theorem setAsync_join_true_returns_prior_witness:
  "join timeoutA = JoinTrue
   \<and> truthy (labels (localCache Timeout None slept) ''a'')
   \<and> setAsync env0 (Suc 0) timeoutA slept = Some (Return (Num 1), slept)"
proof -
  have j: "join timeoutA = JoinTrue"
    by (simp add: timeoutA_def sleepA_fields)
  have l: "labels (localCache Timeout None slept) ''a'' = Num 1"
    by (simp add: slept_cache)
  have f: "name timeoutA = Timeout" "group timeoutA = None" "label timeoutA = Some ''a''"
    by (simp_all add: timeoutA_def sleepA_fields)
  have t: "truthy (labels (localCache (name timeoutA)
              (if truthyStr (group timeoutA) then group timeoutA else None) slept)
              (propKey (label timeoutA)))"
    using l by (simp add: f truthyStr_def propKey_def)
  from setAsync_join_true_returns_prior [OF j t, of env0 0] l j
  show ?thesis by (simp add: f truthyStr_def propKey_def)
qed






text \<open>
  C8, as the code has it. \<^verbatim>\<open>clearAsync\<close> calls the hooks in a plain loop, with no
  handler around the call: when a hook throws (here a user function whose body starts
  with \<^verbatim>\<open>throw\<close>, after hooks that are inert), the exception leaves \<^verbatim>\<open>clearAsync\<close> at
  once. The hooks before it and the throwing hook are the only calls in the trace: the
  hooks after it and the destructor are not called. The Link is already removed from
  the registry by then.
\<close>

theorem clearAsync_hook_exception_propagates:
  assumes g: "g = (if truthyStr (group p) then group p else None)"
    and i: "i = (if truthyStr (label p) then labels (localCache (name p) g s) (propKey (label p))
                 else ident p)"
    and agree: "ident p = Undefined \<or> ident p = i"
    and def: "i \<noteq> Undefined"
    and live: "map_get i (links (localCache (name p) g s)) = Some a"
    and lid: "link_id (heap s a) = i"
    and hooks: "link_onClear (heap s a) = pre @ User k # rest"
    and pre: "\<forall>f \<in> set pre. inert \<Gamma> f"
    and throws: "body \<Gamma> k = Raise # cs"
    and fuel: "length pre + 4 \<le> n"
    and s3: "s3 = record_events (hooksCalled (pre @ [User k]) (cancelCtx p i a))
                    (unlinked (name p) g i (link_label (heap s a)) s)"
  shows "clearAsync \<Gamma> n p s = Some (Throw UserError, s3)
         \<and> trace s3 = trace s @ [LinksDelete (name p) g i,
                                   LabelsSet (name p) g (propKey (link_label (heap s a))) Undefined]
                        @ hooksCalled pre (cancelCtx p i a)
                        @ [Called (User k) (CtxArg (cancelCtx p i a))]
         \<and> links (localCache (name p) g s3) = map_delete i (links (localCache (name p) g s))"
proof -
  from clearAsync_hook_throws [OF g i agree def live hooks pre throws fuel]
  have "clearAsync \<Gamma> n p s = Some (Throw UserError, s3)"
    by (simp add: s3 lid)
  then show ?thesis
    by (simp add: s3 hooksCalled_def localCache_unlinked)
qed

theorem clearAsync_hook_exception_propagates_witness:
  "map_get (Num 1) (links (localCache Timeout None hooked)) = Some 0
   \<and> link_id (heap hooked 0) = Num 1
   \<and> link_onClear (heap hooked 0) = [] @ User 0 # [Reject 1]
   \<and> body envThrow 0 = Raise # []
   \<and> clearAsync envThrow 7 cancel1 hooked =
       Some (Throw UserError,
             record_events (hooksCalled ([] @ [User 0]) (cancelCtx cancel1 (Num 1) 0))
               (unlinked Timeout None (Num 1) None hooked))"
proof -
  have f: "name cancel1 = Timeout" "group cancel1 = None" "label cancel1 = None"
    "ident cancel1 = Num 1"
    by (simp_all add: cancel1_def noParams_def)
  have g: "None = (if truthyStr (group cancel1) then group cancel1 else None)"
    by (simp add: f truthyStr_def)
  have i: "Num 1 = (if truthyStr (label cancel1)
                    then labels (localCache (name cancel1) None hooked) (propKey (label cancel1))
                    else ident cancel1)"
    by (simp add: f truthyStr_def)
  have agree: "ident cancel1 = Undefined \<or> ident cancel1 = Num 1" by (simp add: f)
  have def: "Num 1 \<noteq> Undefined" by simp
  have live: "map_get (Num 1) (links (localCache (name cancel1) None hooked)) = Some 0"
    by (simp add: f hooked_cache)
  have lid: "link_id (heap hooked 0) = Num 1" by (simp add: hooked_heap)
  have hooks: "link_onClear (heap hooked 0) = [] @ User 0 # [Reject 1]"
    by (simp add: hooked_heap)
  have pre: "\<forall>f \<in> set []. inert envThrow f" by simp
  have throws: "body envThrow 0 = Raise # []" by (simp add: envThrow_def)
  have fuel: "length ([] :: fn list) + 4 \<le> 7" by simp
  from clearAsync_hook_exception_propagates
         [OF g i agree def live lid hooks pre throws fuel refl] f live lid hooks throws
  show ?thesis by (simp add: hooked_heap)
qed

text \<open>
  C8, as the claim states it, fails: the timeout of \<open>hooked\<close> has the hooks
  \<open>[User 0, Reject 1]\<close> and the first one throws. Clearing it ends in the exception,
  and neither the second hook nor the destructor \<^verbatim>\<open>clearTimeout\<close> has been called.
\<close>

theorem clearAsync_later_hooks_skipped:
  "link_onClear (heap hooked 0) = [User 0, Reject 1]
   \<and> clearFn cancel1 = Some HostClear
   \<and> clearAsync envThrow 4 cancel1 hooked =
       Some (Throw UserError,
             record_events (hooksCalled [User 0] (cancelCtx cancel1 (Num 1) 0))
               (unlinked Timeout None (Num 1) None hooked))
   \<and> Called (Reject 1) (CtxArg (cancelCtx cancel1 (Num 1) 0))
        \<notin> set (trace (record_events (hooksCalled [User 0] (cancelCtx cancel1 (Num 1) 0))
                        (unlinked Timeout None (Num 1) None hooked)))
   \<and> Destructor HostClear (Num 1) (cancelCtx cancel1 (Num 1) 0)
        \<notin> set (trace (record_events (hooksCalled [User 0] (cancelCtx cancel1 (Num 1) 0))
                        (unlinked Timeout None (Num 1) None hooked)))"
proof -
  have f: "name cancel1 = Timeout" "group cancel1 = None" "label cancel1 = None"
    "ident cancel1 = Num 1" "clearFn cancel1 = Some HostClear"
    by (simp_all add: cancel1_def noParams_def)
  have g: "None = (if truthyStr (group cancel1) then group cancel1 else None)"
    by (simp add: f truthyStr_def)
  have i: "Num 1 = (if truthyStr (label cancel1)
                    then labels (localCache (name cancel1) None hooked) (propKey (label cancel1))
                    else ident cancel1)"
    by (simp add: f truthyStr_def)
  have agree: "ident cancel1 = Undefined \<or> ident cancel1 = Num 1" by (simp add: f)
  have def: "Num 1 \<noteq> Undefined" by simp
  have live: "map_get (Num 1) (links (localCache (name cancel1) None hooked)) = Some 0"
    by (simp add: f hooked_cache)
  have hooks: "link_onClear (heap hooked 0) = [] @ User 0 # [Reject 1]"
    by (simp add: hooked_heap)
  have pre: "\<forall>f \<in> set []. inert envThrow f" by simp
  have throws: "body envThrow 0 = Raise # []" by (simp add: envThrow_def)
  have fuel: "length ([] :: fn list) + 4 \<le> 4" by simp
  have t: "trace hooked = [LinksSet Timeout None (Num 1) 0]"
    by (simp add: hooked_def)
  from clearAsync_hook_throws [OF g i agree def live hooks pre throws fuel] f t
  show ?thesis
    by (simp add: hooked_heap hooksCalled_def)
qed




text \<open>
  C2. The handler of \<^verbatim>\<open>onPromiseClear(resolve, reject)\<close>, called with a cancel context
  \<open>ob\<close>: when the context has a successor \<open>r\<close>, \<^verbatim>\<open>join === 'replace'\<close>, and the cleared
  Link has fewer than 25 \<^verbatim>\<open>onClear\<close> hooks, it pushes the pair onto the successor's
  \<^verbatim>\<open>onComplete\<close> and the cleared Link's \<^verbatim>\<open>onClear\<close> followed by \<^verbatim>\<open>reject\<close> onto the
  successor's \<^verbatim>\<open>onClear\<close>, and calls nothing; otherwise it calls \<^verbatim>\<open>reject\<close> with the
  context (for the \<^verbatim>\<open>reject\<close> of a promise, that call is all that happens).
\<close>

theorem onPromiseClear_forwards_or_rejects:
  "MAX_PROMISE_DEPTH = 25
   \<and> (replacedBy (spread ob) = Some r \<and> join (spread ob) = JoinReplace
        \<and> length (link_onClear (heap s (link ob))) < MAX_PROMISE_DEPTH
      \<longrightarrow> call \<Gamma> (Suc n) (onPromiseClear resolve reject) (CtxArg ob) s =
            Some (Return Undefined,
              (record_event (Called (onPromiseClear resolve reject) (CtxArg ob)) s)
                \<lparr>heap := (heap s)(r := (heap s r)
                    \<lparr>link_onComplete := link_onComplete (heap s r) @ [(resolve, reject)],
                     link_onClear := link_onClear (heap s r)
                                       @ link_onClear (heap s (link ob)) @ [reject]\<rparr>)\<rparr>))
   \<and> (replacedBy (spread ob) = None \<or> join (spread ob) \<noteq> JoinReplace
        \<or> MAX_PROMISE_DEPTH \<le> length (link_onClear (heap s (link ob)))
      \<longrightarrow> call \<Gamma> (Suc (Suc n)) (onPromiseClear resolve (Reject m)) (CtxArg ob) s =
            Some (Return Undefined,
              record_events [Called (onPromiseClear resolve (Reject m)) (CtxArg ob),
                             Called (Reject m) (CtxArg ob)] s))"
  by (cases "replacedBy (spread ob)")
     (auto simp: call_Suc call_body_def onPromiseClear_def MAX_PROMISE_DEPTH_def call_Reject
        promiseForward_def Let_def record_events_def record_event_def)


theorem onPromiseClear_forwards_or_rejects_witness:
  "replacedBy (spread cancelReplace) = Some 1 \<and> join (spread cancelReplace) = JoinReplace
   \<and> link_onClear (heap slept (link cancelReplace)) = [PromiseClear (Resolve 1) (Reject 1)]
   \<and> call env0 (Suc 0) (onPromiseClear (Resolve 1) (Reject 1)) (CtxArg cancelReplace) slept =
       Some (Return Undefined,
         (record_event (Called (onPromiseClear (Resolve 1) (Reject 1)) (CtxArg cancelReplace)) slept)
           \<lparr>heap := (heap slept)(1 := (heap slept 1)
               \<lparr>link_onComplete := link_onComplete (heap slept 1) @ [(Resolve 1, Reject 1)],
                link_onClear := link_onClear (heap slept 1)
                                  @ link_onClear (heap slept (link cancelReplace)) @ [Reject 1]\<rparr>)\<rparr>)
   \<and> replacedBy (spread (cancelCtx cancel1 (Num 1) 0)) = None
   \<and> call env0 (Suc (Suc 0)) (onPromiseClear (Resolve 1) (Reject 1))
         (CtxArg (cancelCtx cancel1 (Num 1) 0)) slept =
       Some (Return Undefined,
         record_events [Called (onPromiseClear (Resolve 1) (Reject 1))
                          (CtxArg (cancelCtx cancel1 (Num 1) 0)),
                        Called (Reject 1) (CtxArg (cancelCtx cancel1 (Num 1) 0))] slept)"
proof -
  have f: "replacedBy (spread cancelReplace) = Some 1" "join (spread cancelReplace) = JoinReplace"
    "link cancelReplace = 0"
    by (simp_all add: cancelReplace_def cancelCtx_def sleepParams_def noParams_def)
  have h: "link_onClear (heap slept (link cancelReplace)) = [PromiseClear (Resolve 1) (Reject 1)]"
    by (simp add: f slept_heap)
  have l: "length (link_onClear (heap slept (link cancelReplace))) < MAX_PROMISE_DEPTH"
    by (simp add: h MAX_PROMISE_DEPTH_def)
  have n: "replacedBy (spread (cancelCtx cancel1 (Num 1) 0)) = None"
    by (simp add: cancelCtx_def cancel1_def noParams_def)
  from onPromiseClear_forwards_or_rejects
         [of cancelReplace 1 slept env0 0 "Resolve 1" "Reject 1"] f(1,2) l h
  have a: "call env0 (Suc 0) (onPromiseClear (Resolve 1) (Reject 1)) (CtxArg cancelReplace) slept =
       Some (Return Undefined,
         (record_event (Called (onPromiseClear (Resolve 1) (Reject 1)) (CtxArg cancelReplace)) slept)
           \<lparr>heap := (heap slept)(1 := (heap slept 1)
               \<lparr>link_onComplete := link_onComplete (heap slept 1) @ [(Resolve 1, Reject 1)],
                link_onClear := link_onClear (heap slept 1)
                                  @ link_onClear (heap slept (link cancelReplace)) @ [Reject 1]\<rparr>)\<rparr>)"
    by simp
  from onPromiseClear_forwards_or_rejects
         [where ob = "cancelCtx cancel1 (Num 1) 0" and s = slept and \<Gamma> = env0 and n = 0
            and resolve = "Resolve 1" and m = 1] n
  have b: "call env0 (Suc (Suc 0)) (onPromiseClear (Resolve 1) (Reject 1))
         (CtxArg (cancelCtx cancel1 (Num 1) 0)) slept =
       Some (Return Undefined,
         record_events [Called (onPromiseClear (Resolve 1) (Reject 1))
                          (CtxArg (cancelCtx cancel1 (Num 1) 0)),
                        Called (Reject 1) (CtxArg (cancelCtx cancel1 (Num 1) 0))] slept)"
    by simp
  from f(1,2) h a n b show ?thesis by (intro conjI)
qed

text \<open>
  C3 fails on the code. Two calls of \<^verbatim>\<open>sleep\<close> with the same label and \<^verbatim>\<open>join: true\<close>
  on a new \<^verbatim>\<open>Async\<close>: the first starts a timer; the second returns the first id and
  leaves the state as it is, so only one primitive is started, but the \<^verbatim>\<open>resolve\<close> and
  \<^verbatim>\<open>reject\<close> of the second promise are stored nowhere (\<^verbatim>\<open>onComplete\<close> of the first Link
  stays empty). When the timer fires, \<^verbatim>\<open>resolve\<close> of promise 1 is the only function
  called, and no Link is left: the second promise is never settled.
\<close>

theorem sleep_join_true_later_promise_never_settles:
  "sleep env0 (Suc 0) 1 joinA init = Some (Return (Num 1), slept)
   \<and> sleep env0 (Suc 0) 2 joinA slept = Some (Return (Num 1), slept)
   \<and> link_onComplete (heap slept 0) = []
   \<and> call env0 (Suc (Suc (Suc 0))) (Wrapped 0) NoArg slept = Some (Return Undefined, fired)
   \<and> trace fired =
       [Scheduled (Fn (Wrapped 0)) (Num 1), LinksSet Timeout None (Num 1) 0,
        LabelsSet Timeout None ''a'' (Num 1), Called (Wrapped 0) NoArg,
        LinksDelete Timeout None (Num 1), LabelsSet Timeout None ''a'' Undefined,
        Called (Resolve 1) NoArg]
   \<and> links (localCache Timeout None fired) = [None]"
proof -
  have A: "sleep env0 (Suc 0) 1 joinA init = Some (Return (Num 1), slept)"
    unfolding sleep_params slept_def
    by (rule setAsync_registered) (simp_all add: sleepA_fields truthyStr_def)
  have t: "truthy (labels (localCache (name (sleepParams 2 joinA))
             (if truthyStr (group (sleepParams 2 joinA)) then group (sleepParams 2 joinA) else None)
             slept) (propKey (label (sleepParams 2 joinA))))"
    by (simp add: sleepA_fields truthyStr_def propKey_def slept_cache)
  have B: "sleep env0 (Suc 0) 2 joinA slept = Some (Return (Num 1), slept)"
    unfolding sleep_params
    using setAsync_joined [OF _ t, of env0 0]
    by (simp add: sleepA_fields truthyStr_def propKey_def slept_cache)
  have C: "link_onComplete (heap slept 0) = []" by (simp add: slept_heap)
  let ?cl = "\<lparr>cl_name = Timeout, cl_group = None, cl_id = Num 1, cl_interval = False,
              cl_label = Some ''a'', cl_finalObj = Fn (Resolve 1)\<rparr>"
  have cl: "closures slept 0 = ?cl"
    by (simp add: slept_def registered_fields sleepA_fields)
  have live: "map_get (cl_id ?cl) (links (localCache (cl_name ?cl) (cl_group ?cl) slept)) = Some 0"
    by (simp add: slept_cache)
  have pay: "exec env0 (Suc 0) (TCall (Resolve 1) NoArg)
               (unlinked (cl_name ?cl) (cl_group ?cl) (cl_id ?cl) (cl_label ?cl)
                  (record_event (Called (Wrapped 0) NoArg) slept))
             = Some (Return Undefined, fired)"
    by (simp add: call_Resolve fired_def)
  have oc: "link_onComplete (heap fired 0) = []"
    by (simp add: fired_def slept_heap)
  have D: "call env0 (Suc (Suc (Suc 0))) (Wrapped 0) NoArg slept = Some (Return Undefined, fired)"
    by (rule call_wrapped_single_shot [OF cl _ _ live refl pay oc]) simp_all
  have E: "trace fired =
       [Scheduled (Fn (Wrapped 0)) (Num 1), LinksSet Timeout None (Num 1) 0,
        LabelsSet Timeout None ''a'' (Num 1), Called (Wrapped 0) NoArg,
        LinksDelete Timeout None (Num 1), LabelsSet Timeout None ''a'' Undefined,
        Called (Resolve 1) NoArg]"
    by (simp add: fired_def slept_def registered_fields sleepA_fields truthyStr_def propKey_def)
  have F: "links (localCache Timeout None fired) = [None]"
    by (simp add: fired_def localCache_unlinked slept_cache)
  from A B C D E F show ?thesis by (intro conjI)
qed






text \<open>
  C10. Two calls of \<^verbatim>\<open>setAsync\<close> for the same kind and group whose id is the payload
  itself (no \<^verbatim>\<open>linkByWrapper\<close>: a worker, or a request that has \<^verbatim>\<open>then\<close>), for the same
  object and without labels: both return the object; the second \<^verbatim>\<open>links.set\<close> replaces
  the value of the entry the first one made, so the \<^verbatim>\<open>Map\<close> keeps one entry for the id
  and it holds the second Link with the second \<^verbatim>\<open>onClear\<close>; the first Link object is
  then the value of no entry of any \<^verbatim>\<open>links\<close>, so no later call can reach its hooks;
  and neither call has called a hook or a destructor.
\<close>

theorem setAsync_same_id_overwrites:
  assumes g: "g = (if truthyStr (group p1) then group p1 else None)"
    and g2: "g = (if truthyStr (group p2) then group p2 else None)"
    and nm: "name p2 = name p1"
    and o1: "obj p1 = Obj w" and o2: "obj p2 = Obj w"
    and l1: "\<not> truthyStr (label p1)" and l2: "\<not> truthyStr (label p2)"
    and c1: "\<not> truthy (labels (localCache (name p1) g s) (propKey (label p1)))"
    and c2: "\<not> truthy (labels (localCache (name p1) g s) (propKey (label p2)))"
    and b1: "\<not> linkByWrapper p1" and b2: "\<not> linkByWrapper p2"
    and w1: "wrapper p1 = None
             \<or> (wrapper p1 = Some ThenBoth \<and> needCall p1 \<and> ''then'' \<in> set (methodsOf \<Gamma> (Obj w)))"
    and w2: "wrapper p2 = None
             \<or> (wrapper p2 = Some ThenBoth \<and> needCall p2 \<and> ''then'' \<in> set (methodsOf \<Gamma> (Obj w)))"
    and wf: "\<forall>k g' key a. Some (key, a) \<in> set (links (localCache k g' s)) \<longrightarrow> a < nextAddr s"
  shows "\<exists>s1 s2.
           setAsync \<Gamma> (Suc n1) p1 s = Some (Return (Obj w), s1)
         \<and> setAsync \<Gamma> (Suc n2) p2 s1 = Some (Return (Obj w), s2)
         \<and> map_get (Obj w) (links (localCache (name p1) g s1)) = Some (nextAddr s)
         \<and> heap s1 (nextAddr s) = linkOf p1 (Obj w)
         \<and> map_get (Obj w) (links (localCache (name p1) g s2)) = Some (Suc (nextAddr s))
         \<and> heap s2 (Suc (nextAddr s)) = linkOf p2 (Obj w)
         \<and> length (links (localCache (name p1) g s2)) = length (links (localCache (name p1) g s1))
         \<and> (\<forall>k g' key. Some (key, nextAddr s) \<notin> set (links (localCache k g' s2)))
         \<and> (\<forall>e \<in> set (drop (length (trace s)) (trace s2)). quiet e)"
proof -
  let ?k = "name p1"
  let ?a1 = "nextAddr s"
  let ?a2 = "Suc (nextAddr s)"
  define t1 where "t1 = snd (wrapAndStart \<Gamma> p1 g (Obj w) (prepared p1 s))"
  define s1 where "s1 = linksSet ?k g (Obj w) ?a1 (newLink (linkOf p1 (Obj w)) t1)"
  define t2 where "t2 = snd (wrapAndStart \<Gamma> p2 g (Obj w) (prepared p2 s1))"
  define s2 where "s2 = linksSet ?k g (Obj w) ?a2 (newLink (linkOf p2 (Obj w)) t2)"
  have ws1: "wrapAndStart \<Gamma> p1 g (Obj w) (prepared p1 s) = (Return (Obj w), t1)"
    using wrapAndStart_plain [OF w1 b1, of g "prepared p1 s"]
    by (simp add: t1_def prod_eq_iff)
  have ws2: "wrapAndStart \<Gamma> p2 g (Obj w) (prepared p2 s1) = (Return (Obj w), t2)"
    using wrapAndStart_plain [OF w2 b2, of g "prepared p2 s1"]
    by (simp add: t2_def prod_eq_iff)
  have ft1: "\<And>k g'. localCache k g' t1 = localCache k g' s" "heap t1 = heap s"
    "nextAddr t1 = nextAddr s"
    by (simp_all add: t1_def)
  have r1: "setAsync \<Gamma> (Suc n1) p1 s = Some (Return (Obj w), s1)"
    using setAsync_fresh [OF g c1 _ _ ws1 [unfolded o1 [symmetric]], of n1] o1 l1
    by (simp add: s1_def installLink_unlabelled)
  have a1: "nextAddr s1 = ?a2" by (simp add: s1_def ft1)
  have lab1: "labels (localCache ?k g s1) = labels (localCache ?k g s)"
    by (simp add: s1_def localCache_linksSet ft1)
  have c2': "\<not> truthy (labels (localCache (name p2) g s1) (propKey (label p2)))"
    using c2 by (simp add: nm lab1)
  have ft2: "\<And>k g'. localCache k g' t2 = localCache k g' s1" "heap t2 = heap s1"
    "nextAddr t2 = nextAddr s1"
    by (simp_all add: t2_def)
  have r2: "setAsync \<Gamma> (Suc n2) p2 s1 = Some (Return (Obj w), s2)"
    using setAsync_fresh [OF g2 c2' _ _ ws2 [unfolded o2 [symmetric]], of n2] o2 l2 a1
    by (simp add: s2_def installLink_unlabelled nm)
  have m1: "links (localCache ?k g s1) = map_set (Obj w) ?a1 (links (localCache ?k g s))"
    by (simp add: s1_def localCache_linksSet ft1)
  have m2: "links (localCache ?k g s2) = map_set (Obj w) ?a2 (links (localCache ?k g s))"
    by (simp add: s2_def localCache_linksSet ft2 m1)
  have oth: "\<And>k g'. \<not> (k = ?k \<and> g' = g) \<Longrightarrow> localCache k g' s2 = localCache k g' s"
    by (auto simp: s2_def s1_def localCache_linksSet ft2 ft1)
  have h1: "heap s1 ?a1 = linkOf p1 (Obj w)" by (simp add: s1_def ft1)
  have h2: "heap s2 ?a2 = linkOf p2 (Obj w)" by (simp add: s2_def ft2 a1)
  have len: "length (links (localCache ?k g s2)) = length (links (localCache ?k g s1))"
  proof -
    have "map_get (Obj w) (links (localCache ?k g s1)) = Some ?a1" by (simp add: m1)
    from length_map_set_present [OF this, of ?a2] show ?thesis by (simp add: m1 m2)
  qed
  have unreach: "\<forall>k g' key. Some (key, ?a1) \<notin> set (links (localCache k g' s2))"
  proof (intro allI notI)
    fix k g' key
    assume in2: "Some (key, ?a1) \<in> set (links (localCache k g' s2))"
    show False
    proof (cases "k = ?k \<and> g' = g")
      case True
      with in2 m2 have "Some (key, ?a1) \<in> set (map_set (Obj w) ?a2 (links (localCache ?k g s)))"
        by simp
      from in_set_map_set [OF this] have "Some (key, ?a1) \<in> set (links (localCache ?k g s))"
        by simp
      with wf show False by blast
    next
      case False
      with in2 oth have "Some (key, ?a1) \<in> set (links (localCache k g' s))" by simp
      with wf show False by blast
    qed
  qed
  have tr: "\<forall>e \<in> set (drop (length (trace s)) (trace s2)). quiet e"
  proof -
    from wrapAndStart_trace [of \<Gamma> p1 g "Obj w" "prepared p1 s"]
    obtain es1 where e1: "trace t1 = trace s @ es1" "\<forall>e \<in> set es1. quiet e"
      by (auto simp: t1_def)
    from wrapAndStart_trace [of \<Gamma> p2 g "Obj w" "prepared p2 s1"]
    obtain es2 where e2: "trace t2 = trace s1 @ es2" "\<forall>e \<in> set es2. quiet e"
      by (auto simp: t2_def)
    have "trace s2 = trace s @ (es1 @ [LinksSet ?k g (Obj w) ?a1] @ es2 @ [LinksSet ?k g (Obj w) ?a2])"
      by (simp add: s2_def s1_def e1 e2)
    with e1 e2 show ?thesis by (auto simp: quiet_def)
  qed
  from r1 r2 m1 m2 h1 h2 len unreach tr show ?thesis
    by (intro exI [of _ s1] exI [of _ s2]) simp
qed

theorem setAsync_same_id_overwrites_witness:
  "\<exists>s1 s2.
      worker env0 (Suc 0) (Obj 5) (noParams\<lparr>onClear := [Reject 1]\<rparr>) init
        = Some (Return (Obj 5), s1)
    \<and> worker env0 (Suc 0) (Obj 5) (noParams\<lparr>onClear := [Reject 2]\<rparr>) s1
        = Some (Return (Obj 5), s2)
    \<and> map_get (Obj 5) (links (localCache Worker None s2)) = Some 1
    \<and> link_onClear (heap s2 1) = [Reject 2]
    \<and> length (links (localCache Worker None s2)) = length (links (localCache Worker None s1))
    \<and> (\<forall>k g' key. Some (key, 0) \<notin> set (links (localCache k g' s2)))"
proof -
  have f: "\<And>m. name (hire m) = Worker" "\<And>m. group (hire m) = None"
    "\<And>m. label (hire m) = None" "\<And>m. obj (hire m) = Obj 5"
    "\<And>m. linkByWrapper (hire m) = False" "\<And>m. wrapper (hire m) = None"
    "\<And>m. onClear (hire m) = [Reject m]"
    by (simp_all add: hire_def noParams_def)
  have w: "\<And>m n s. worker env0 n (Obj 5) (noParams\<lparr>onClear := [Reject m]\<rparr>) s
                    = setAsync env0 n (hire m) s"
    by (simp add: worker_def hire_def)
  have g: "None = (if truthyStr (group (hire 1)) then group (hire 1) else None)"
    "None = (if truthyStr (group (hire 2)) then group (hire 2) else None)"
    by (simp_all add: f)
  have l: "\<not> truthyStr (label (hire 1))" "\<not> truthyStr (label (hire 2))"
    by (simp_all add: f truthyStr_def)
  have c: "\<not> truthy (labels (localCache (name (hire 1)) None init) (propKey (label (hire 1))))"
    "\<not> truthy (labels (localCache (name (hire 1)) None init) (propKey (label (hire 2))))"
    by simp_all
  have b: "\<not> linkByWrapper (hire 1)" "\<not> linkByWrapper (hire 2)" by (simp_all add: f)
  have ws: "wrapper (hire 1) = None
             \<or> (wrapper (hire 1) = Some ThenBoth \<and> needCall (hire 1)
                 \<and> ''then'' \<in> set (methodsOf env0 (Obj 5)))"
    "wrapper (hire 2) = None
             \<or> (wrapper (hire 2) = Some ThenBoth \<and> needCall (hire 2)
                 \<and> ''then'' \<in> set (methodsOf env0 (Obj 5)))"
    by (simp_all add: f)
  have wf: "\<forall>k g' key a. Some (key, a) \<in> set (links (localCache k g' init)) \<longrightarrow> a < nextAddr init"
    by simp
  have nm: "name (hire 2) = name (hire 1)" by (simp add: f)
  from setAsync_same_id_overwrites
         [OF g nm f(4) f(4) l c b ws wf, where ?n1.0 = 0 and ?n2.0 = 0]
  obtain s1 s2 where
    r: "setAsync env0 (Suc 0) (hire 1) init = Some (Return (Obj 5), s1)"
       "setAsync env0 (Suc 0) (hire 2) s1 = Some (Return (Obj 5), s2)"
       "map_get (Obj 5) (links (localCache (name (hire 1)) None s2)) = Some (Suc (nextAddr init))"
       "heap s2 (Suc (nextAddr init)) = linkOf (hire 2) (Obj 5)"
       "length (links (localCache (name (hire 1)) None s2))
          = length (links (localCache (name (hire 1)) None s1))"
       "\<forall>k g' key. Some (key, nextAddr init) \<notin> set (links (localCache k g' s2))"
    by blast
  show ?thesis
    using r by (intro exI [of _ s1] exI [of _ s2]) (simp add: w f linkOf_def)
qed




end
